theory Spec2Isabelle
  imports Main
begin

section \<open>Python values and built-ins used by \<open>import_verbs.py\<close>\<close>

text \<open>
  The importer works on the objects that \<open>json.loads\<close> returns.  They are modelled by the
  datatype \<open>json\<close>; Python's \<open>None\<close> is \<open>JNull\<close>, a \<open>dict\<close> is an association list in
  insertion order (a dictionary has distinct keys, and \<open>dict.get\<close> is the lookup of the
  first pair with the key).  JSON numbers are restricted to integers.  A Python \<open>str\<close> is a
  \<open>string\<close> whose characters are the code points below 256; on them \<open>str.lower\<close> and
  \<open>str.strip\<close> are written out exactly.  Every exception the code can raise is a value of
  \<open>error\<close>, and a function that can raise returns \<open>error + 'a\<close>.
\<close>

datatype error =
    AttributeError | TypeError | KeyError | ZeroDivisionError | OverflowError
  | InterfaceError | IntegrityError | OperationalError
  | JSONDecodeError | ValueError | RecursionError

datatype json =
    JNull | JBool bool | JInt int | JStr string | JList "json list"
  | JObj "(string \<times> json) list"

definition bindE :: "error + 'a \<Rightarrow> ('a \<Rightarrow> error + 'b) \<Rightarrow> error + 'b" where
  "bindE m f = (case m of Inl e \<Rightarrow> Inl e | Inr x \<Rightarrow> f x)"

fun mapE :: "('a \<Rightarrow> error + 'b) \<Rightarrow> 'a list \<Rightarrow> error + 'b list" where
  "mapE f [] = Inr []"
| "mapE f (x # xs) = bindE (f x) (\<lambda>y. bindE (mapE f xs) (\<lambda>ys. Inr (y # ys)))"

text \<open>Truth value of an object (\<open>not x\<close>, \<open>x or y\<close>, \<open>if x\<close>).\<close>

fun truthy :: "json \<Rightarrow> bool" where
  "truthy JNull = False"
| "truthy (JBool b) = b"
| "truthy (JInt i) = (i \<noteq> 0)"
| "truthy (JStr s) = (s \<noteq> [])"
| "truthy (JList xs) = (xs \<noteq> [])"
| "truthy (JObj kvs) = (kvs \<noteq> [])"

text \<open>\<open>x or []\<close>.\<close>

definition or_empty :: "json \<Rightarrow> json" where
  "or_empty x = (if truthy x then x else JList [])"

text \<open>\<open>d.get(k, default)\<close>: only a \<open>dict\<close> has the method.\<close>

fun py_get_default :: "json \<Rightarrow> string \<Rightarrow> json \<Rightarrow> error + json" where
  "py_get_default (JObj kvs) k d = Inr (case map_of kvs k of None \<Rightarrow> d | Some v \<Rightarrow> v)"
| "py_get_default _ k d = Inl AttributeError"

definition py_get :: "json \<Rightarrow> string \<Rightarrow> error + json" where
  "py_get d k = py_get_default d k JNull"

text \<open>
  Iteration (\<open>for x in v\<close>): a list yields its elements, a string its characters as
  one-character strings, a dictionary its keys; anything else is not iterable.
\<close>

fun py_iter :: "json \<Rightarrow> error + json list" where
  "py_iter (JList xs) = Inr xs"
| "py_iter (JStr s) = Inr (map (\<lambda>c. JStr [c]) s)"
| "py_iter (JObj kvs) = Inr (map (\<lambda>kv. JStr (fst kv)) kvs)"
| "py_iter _ = Inl TypeError"

subsection \<open>Strings\<close>

text \<open>
  \<open>str.lower\<close> on one code point below 256: the upper-case letters are 65 to 90 and 192 to
  222 without 215, and the lower-case letter is 32 further, which is bit 5 set.
\<close>

definition lower_char :: "char \<Rightarrow> char" where
  "lower_char c =
     (let n = (of_char c :: nat)
      in if (65 \<le> n \<and> n \<le> 90) \<or> (192 \<le> n \<and> n \<le> 222 \<and> n \<noteq> 215)
         then (case c of Char b0 b1 b2 b3 b4 b5 b6 b7 \<Rightarrow> Char b0 b1 b2 b3 b4 True b6 b7)
         else c)"

definition lower :: "string \<Rightarrow> string" where
  "lower s = map lower_char s"

text \<open>\<open>t.lower()\<close> on an arbitrary object: only a \<open>str\<close> has the method.\<close>

fun py_lower :: "json \<Rightarrow> error + string" where
  "py_lower (JStr s) = Inr (lower s)"
| "py_lower _ = Inl AttributeError"

definition is_space :: "char \<Rightarrow> bool" where
  "is_space c =
     (let n = (of_char c :: nat)
      in (9 \<le> n \<and> n \<le> 13) \<or> (28 \<le> n \<and> n \<le> 32) \<or> n = 133 \<or> n = 160)"

definition strip :: "string \<Rightarrow> string" where
  "strip s = rev (dropWhile is_space (rev (dropWhile is_space s)))"

text \<open>\<open>s.split(sep)\<close> for a one-character separator: never an empty list.\<close>

fun split_on :: "char \<Rightarrow> string \<Rightarrow> string list" where
  "split_on sep [] = [[]]"
| "split_on sep (c # cs) =
     (if c = sep then [] # split_on sep cs
      else (case split_on sep cs of
              [] \<Rightarrow> [[c]]
            | p # ps \<Rightarrow> (c # p) # ps))"

text \<open>\<open>s.replace(old, new)\<close> for one-character \<open>old\<close> and \<open>new\<close>.\<close>

definition replace_char :: "char \<Rightarrow> char \<Rightarrow> string \<Rightarrow> string" where
  "replace_char old new s = map (\<lambda>c. if c = old then new else c) s"

definition startswith :: "string \<Rightarrow> string \<Rightarrow> bool" where
  "startswith s p = (take (length p) s = p)"

text \<open>
  \<open>s.replace(old, "")\<close> for a non-empty \<open>old\<close>: every occurrence, found from the left
  and not overlapping, is removed.
\<close>

fun remove_all :: "string \<Rightarrow> string \<Rightarrow> string" where
  "remove_all old [] = []"
| "remove_all old (c # cs) =
     (if old \<noteq> [] \<and> startswith (c # cs) old
      then remove_all old (drop (length old - 1) cs)
      else c # remove_all old cs)"

text \<open>\<open>sep.join(xs)\<close>.\<close>

fun join :: "string \<Rightarrow> string list \<Rightarrow> string" where
  "join sep [] = []"
| "join sep [x] = x"
| "join sep (x # y # ys) = x @ sep @ join sep (y # ys)"

text \<open>\<open>sub in s\<close> on strings.\<close>

fun contains :: "string \<Rightarrow> string \<Rightarrow> bool" where
  "contains [] sub = (sub = [])"
| "contains (c # cs) sub = (startswith (c # cs) sub \<or> contains cs sub)"

definition normalize :: "json \<Rightarrow> error + string" where
  "normalize text = py_lower text"

section \<open>The vocabulary tables\<close>

text \<open>The dictionaries of lines 97 to 168, in their declared order.\<close>

definition DIALECT_TAGS :: "(string \<times> string) list" where
  "DIALECT_TAGS =
     [(''attic'', ''attic''), (''ionic'', ''ionic''), (''epic'', ''epic''),
      (''homeric'', ''homeric''), (''koine'', ''koine''), (''byzantine'', ''byzantine''),
      (''doric'', ''doric''), (''aeolic'', ''aeolic'')]"

definition CASE_TAGS :: "(string \<times> string) list" where
  "CASE_TAGS =
     [(''nominative'', ''nominative''), (''genitive'', ''genitive''),
      (''dative'', ''dative''), (''accusative'', ''accusative''),
      (''vocative'', ''vocative'')]"

definition NUMBER_TAGS :: "(string \<times> string) list" where
  "NUMBER_TAGS = [(''singular'', ''singular''), (''dual'', ''dual''), (''plural'', ''plural'')]"

definition GENDER_TAGS :: "(string \<times> string) list" where
  "GENDER_TAGS =
     [(''masculine'', ''masculine''), (''feminine'', ''feminine''), (''neuter'', ''neuter'')]"

definition PERSON_TAGS :: "(string \<times> string) list" where
  "PERSON_TAGS =
     [(''first-person'', ''first-person''), (''second-person'', ''second-person''),
      (''third-person'', ''third-person'')]"

definition TENSE_TAGS :: "(string \<times> string) list" where
  "TENSE_TAGS =
     [(''present'', ''present''), (''imperfect'', ''imperfect''), (''future'', ''future''),
      (''aorist'', ''aorist''), (''perfect'', ''perfect''), (''pluperfect'', ''pluperfect''),
      (''future-perfect'', ''future-perfect'')]"

definition MOOD_TAGS :: "(string \<times> string) list" where
  "MOOD_TAGS =
     [(''indicative'', ''indicative''), (''imperative'', ''imperative''),
      (''subjunctive'', ''subjunctive''), (''optative'', ''optative'')]"

definition VOICE_TAGS :: "(string \<times> string) list" where
  "VOICE_TAGS =
     [(''active'', ''active''), (''middle'', ''middle''), (''passive'', ''passive''),
      (''middle-passive'', ''middle-passive'')]"

definition DEGREE_TAGS :: "(string \<times> string) list" where
  "DEGREE_TAGS =
     [(''positive'', ''positive''), (''comparative'', ''comparative''),
      (''superlative'', ''superlative'')]"

definition VERB_FORM_TAGS :: "(string \<times> string) list" where
  "VERB_FORM_TAGS =
     [(''finite'', ''finite''), (''infinitive'', ''infinitive''),
      (''participle'', ''participle'')]"

text \<open>The ten tables together, in the order \<open>parse_tags\<close> consults them.\<close>

definition vocabularies :: "(string \<times> string) list list" where
  "vocabularies =
     [DIALECT_TAGS, CASE_TAGS, NUMBER_TAGS, GENDER_TAGS, PERSON_TAGS, TENSE_TAGS,
      MOOD_TAGS, VOICE_TAGS, DEGREE_TAGS, VERB_FORM_TAGS]"

section \<open>The tag classifier\<close>

text \<open>
  \<open>pick\<close> (lines 308 to 312) walks a table in its declared order and returns the value of
  the first key that is in the set \<open>tags_lc\<close>.
\<close>

fun pick :: "string set \<Rightarrow> (string \<times> string) list \<Rightarrow> string option" where
  "pick tags_lc [] = None"
| "pick tags_lc ((key, v) # mapping) =
     (if key \<in> tags_lc then Some v else pick tags_lc mapping)"

record parsed_tags =
  pt_dialect :: "string option"
  pt_case :: "string option"
  pt_number :: "string option"
  pt_gender :: "string option"
  pt_person :: "string option"
  pt_tense :: "string option"
  pt_mood :: "string option"
  pt_voice :: "string option"
  pt_degree :: "string option"
  pt_verb_form_type :: "string option"

text \<open>
  \<open>parse_tags\<close> (lines 305 to 325).  The argument is the iterable of tags; the set
  comprehension calls \<open>lower\<close> on every element.
\<close>

definition parse_tags :: "json \<Rightarrow> error + parsed_tags" where
  "parse_tags tags =
     bindE (py_iter tags) (\<lambda>ts.
     bindE (mapE py_lower ts) (\<lambda>ls.
       let tags_lc = set ls in
       Inr \<lparr> pt_dialect = pick tags_lc DIALECT_TAGS,
             pt_case = pick tags_lc CASE_TAGS,
             pt_number = pick tags_lc NUMBER_TAGS,
             pt_gender = pick tags_lc GENDER_TAGS,
             pt_person = pick tags_lc PERSON_TAGS,
             pt_tense = pick tags_lc TENSE_TAGS,
             pt_mood = pick tags_lc MOOD_TAGS,
             pt_voice = pick tags_lc VOICE_TAGS,
             pt_degree = pick tags_lc DEGREE_TAGS,
             pt_verb_form_type = pick tags_lc VERB_FORM_TAGS \<rparr>))"

text \<open>\<open>should_keep_form\<close> (lines 328 to 340).\<close>

definition should_keep_form :: "json \<Rightarrow> error + bool" where
  "should_keep_form form_entry =
     bindE (py_get form_entry ''form'') (\<lambda>form.
       if \<not> truthy form then Inr False
       else if form = JStr ''-'' then Inr False
       else
         bindE (py_get_default form_entry ''tags'' (JList [])) (\<lambda>raw.
         bindE (py_iter raw) (\<lambda>ts.
         bindE (mapE py_lower ts) (\<lambda>tags.
           if tags = [] then Inr False
           else if ''romanization'' \<in> set tags then Inr False
           else if ''inflection-template'' \<in> set tags \<or> ''table-tags'' \<in> set tags
                   \<or> ''class'' \<in> set tags then Inr False
           else Inr True))))"

section \<open>Library functions taken as parameters\<close>

text \<open>
  What the model does not write out is a parameter of it.  Of the Python library:
  \<open>json.loads\<close> on one line, which returns the object or raises (\<open>JSONDecodeError\<close> for
  a line that is not JSON; it can also raise another exception, such as \<open>RecursionError\<close>
  on deep nesting or a plain \<open>ValueError\<close> on an integer with too many digits);
  \<open>json.dumps\<close> with \<open>ensure_ascii=True\<close>; and \<open>str\<close> on an object that is not a string.
  Of SQLite: the number that a column of INTEGER affinity makes of a text that is not a
  plain run of digits (\<open>None\<close> when the text is not a well-formed number and stays text);
  what its parser reads in the text of a \<open>PRAGMA table_info\<close> statement (the table that
  is named) and of an \<open>ALTER TABLE ... ADD COLUMN\<close> statement (the table and the column
  with its declared type and default), or the exception when it refuses the text, for
  instance a syntax error or a column constraint that \<open>ADD COLUMN\<close> does not accept; and
  the largest number of columns of a table (\<open>SQLITE_MAX_COLUMN\<close>).
\<close>

datatype sqlval = SNull | SInt int | SReal int int | SText string

datatype number = NInt int | NReal int int

record sql_column =
  col_name :: string
  col_type :: string
  col_default :: sqlval

record add_column =
  ac_table :: string
  ac_column :: sql_column

record library =
  loads :: "string \<Rightarrow> error + json"
  dumps :: "json \<Rightarrow> string"
  str_of :: "json \<Rightarrow> string"
  number_of_text :: "string \<Rightarrow> number option"
  table_info_stmt :: "string \<Rightarrow> error + string"
  add_column_stmt :: "string \<Rightarrow> error + add_column"
  max_column :: nat

definition py_str :: "library \<Rightarrow> json \<Rightarrow> string" where
  "py_str lib v = (case v of JStr s \<Rightarrow> s | _ \<Rightarrow> str_of lib v)"

text \<open>\<open>v.strip()\<close> and \<open>d.items()\<close> on an arbitrary object; \<open>x or {}\<close>.\<close>

fun py_strip :: "json \<Rightarrow> error + string" where
  "py_strip (JStr s) = Inr (strip s)"
| "py_strip _ = Inl AttributeError"

fun py_items :: "json \<Rightarrow> error + (string \<times> json) list" where
  "py_items (JObj kvs) = Inr kvs"
| "py_items _ = Inl AttributeError"

definition or_dict :: "json \<Rightarrow> json" where
  "or_dict x = (if truthy x then x else JObj [])"

text \<open>\<open>dumps_or_none\<close> (lines 280 to 289).\<close>

definition dumps_or_none :: "library \<Rightarrow> json \<Rightarrow> json" where
  "dumps_or_none lib v =
     (case v of
        JNull \<Rightarrow> JNull
      | JList xs \<Rightarrow> if xs = [] then JNull else JStr (dumps lib v)
      | JObj kvs \<Rightarrow> if kvs = [] then JNull else JStr (dumps lib v)
      | JStr s \<Rightarrow> if s = [] then JNull else v
      | _ \<Rightarrow> v)"

section \<open>The store\<close>

text \<open>
  A statement parameter is bound as \<open>sqlite3\<close> binds it: \<open>None\<close> as NULL, a \<open>bool\<close> or an
  \<open>int\<close> as a 64-bit integer (\<open>OverflowError\<close> outside the range), a \<open>str\<close> as text; a
  list or a dictionary cannot be bound.
\<close>

datatype param = PNull | PInt int | PText string

fun bind_param :: "json \<Rightarrow> error + param" where
  "bind_param JNull = Inr PNull"
| "bind_param (JBool b) = Inr (PInt (if b then 1 else 0))"
| "bind_param (JInt i) =
     (if - (2 ^ 63) \<le> i \<and> i < 2 ^ 63 then Inr (PInt i) else Inl OverflowError)"
| "bind_param (JStr s) = Inr (PText s)"
| "bind_param (JList xs) = Inl InterfaceError"
| "bind_param (JObj kvs) = Inl InterfaceError"

text \<open>
  A value stored in a column is NULL, an integer, a real (\<open>SReal m e\<close> is \<open>m\<close> times 2 to
  the \<open>e\<close>) or a text.  SQLite converts a value to the affinity of the column it is stored
  in.  A column declared \<open>TEXT\<close> stores an integer as its decimal text.  A column declared
  \<open>INTEGER\<close> stores a text that is a well-formed number as that number: a run of at most
  18 digits is the integer it writes, and for every other text the conversion is the
  parameter \<open>number_of_text\<close>.
\<close>

definition digit_char :: "nat \<Rightarrow> char" where
  "digit_char d = ''0123456789'' ! d"

fun nat_to_text :: "nat \<Rightarrow> string" where
  "nat_to_text n =
     (if n < 10 then [digit_char n] else nat_to_text (n div 10) @ [digit_char (n mod 10)])"

declare nat_to_text.simps [simp del]

definition int_to_text :: "int \<Rightarrow> string" where
  "int_to_text i = (if i < 0 then CHR ''-'' # nat_to_text (nat (- i)) else nat_to_text (nat i))"

definition text_affinity :: "param \<Rightarrow> sqlval" where
  "text_affinity p =
     (case p of PNull \<Rightarrow> SNull | PInt i \<Rightarrow> SText (int_to_text i) | PText s \<Rightarrow> SText s)"

definition is_digit :: "char \<Rightarrow> bool" where
  "is_digit c = (48 \<le> (of_char c :: nat) \<and> (of_char c :: nat) \<le> 57)"

definition decimal_value :: "string \<Rightarrow> int" where
  "decimal_value s = foldl (\<lambda>a c. 10 * a + (of_char c - 48)) 0 s"

definition integer_affinity :: "library \<Rightarrow> param \<Rightarrow> sqlval" where
  "integer_affinity lib p =
     (case p of
        PNull \<Rightarrow> SNull
      | PInt i \<Rightarrow> SInt i
      | PText s \<Rightarrow>
          if s \<noteq> [] \<and> list_all is_digit s \<and> length s \<le> 18 then SInt (decimal_value s)
          else (case number_of_text lib s of
                  None \<Rightarrow> SText s
                | Some (NInt i) \<Rightarrow> SInt i
                | Some (NReal m e) \<Rightarrow> SReal m e))"

text \<open>
  The rows of the six tables of \<open>SCHEMA_SQL\<close>, whose columns have the types declared
  there.  The columns \<open>sort_key\<close> and \<open>notes\<close> of \<open>lemma\<close>, which the importer never writes,
  are left out.
\<close>

record lemma_row =
  l_id :: int
  l_headword :: string
  l_headword_norm :: string
  l_etymology_text :: sqlval
  l_etymology_templates :: sqlval
  l_etymology_number :: sqlval
  l_inflection_templates :: sqlval
  l_related :: sqlval
  l_synonyms :: sqlval
  l_antonyms :: sqlval
  l_categories :: sqlval
  l_entry_extra :: sqlval

record pos_row =
  p_id :: int
  p_code :: string

record dialect_row =
  d_id :: int
  d_code :: string

record lemma_pos_row =
  lp_lemma_id :: int
  lp_pos_id :: int
  lp_is_primary :: int

record sense_row =
  s_id :: int
  s_lemma_id :: int
  s_pos_id :: int
  s_gloss :: sqlval
  s_definition :: sqlval
  s_sense_order :: int
  s_metadata :: "(string \<times> sqlval) list"

record form_row =
  f_id :: int
  f_lemma_id :: int
  f_pos_id :: int
  f_form :: sqlval
  f_form_norm :: string
  f_dialect_id :: "int option"
  f_tense :: "string option"
  f_mood :: "string option"
  f_voice :: "string option"
  f_person :: "string option"
  f_number :: "string option"
  f_grammatical_case :: "string option"
  f_gender :: "string option"
  f_degree :: "string option"
  f_verb_form_type :: "string option"
  f_is_principal_part :: int
  f_pronoun_type :: "string option"
  f_governs_case :: "string option"
  f_tags :: string
  f_source :: sqlval

record conn =
  lemma_tbl :: "lemma_row list"
  pos_tbl :: "pos_row list"
  lemma_pos_tbl :: "lemma_pos_row list"
  sense_tbl :: "sense_row list"
  dialect_tbl :: "dialect_row list"
  form_tbl :: "form_row list"

text \<open>
  The row id that an \<open>INTEGER PRIMARY KEY\<close> column gets on insert (\<open>lastrowid\<close>): one
  more than the largest id of the table, 1 in an empty table.
\<close>

definition next_id :: "int list \<Rightarrow> int" where
  "next_id ids = (if ids = [] then 1 else Max (set ids) + 1)"

section \<open>The entity resolver\<close>

text \<open>
  \<open>ensure_pos\<close>, \<open>ensure_dialect\<close> and \<open>ensure_lemma\<close> (lines 401 to 449): the cache, then
  the \<open>SELECT\<close> (\<open>fetchone\<close> is the first matching row), then the \<open>INSERT\<close>.  Each returns
  the store, the cache and the id.
\<close>

definition ensure_pos ::
  "conn \<Rightarrow> string \<Rightarrow> (string \<rightharpoonup> int) \<Rightarrow> conn \<times> (string \<rightharpoonup> int) \<times> int" where
  "ensure_pos c code pos_cache =
     (case pos_cache code of
        Some i \<Rightarrow> (c, pos_cache, i)
      | None \<Rightarrow>
          (case find (\<lambda>r. p_code r = code) (pos_tbl c) of
             Some row \<Rightarrow> (c, pos_cache(code \<mapsto> p_id row), p_id row)
           | None \<Rightarrow>
               (let lastrowid = next_id (map p_id (pos_tbl c))
                in (c\<lparr>pos_tbl := pos_tbl c @ [\<lparr>p_id = lastrowid, p_code = code\<rparr>]\<rparr>,
                    pos_cache(code \<mapsto> lastrowid), lastrowid))))"

definition ensure_dialect ::
  "conn \<Rightarrow> string \<Rightarrow> (string \<rightharpoonup> int) \<Rightarrow> conn \<times> (string \<rightharpoonup> int) \<times> int" where
  "ensure_dialect c code dialect_cache =
     (case dialect_cache code of
        Some i \<Rightarrow> (c, dialect_cache, i)
      | None \<Rightarrow>
          (case find (\<lambda>r. d_code r = code) (dialect_tbl c) of
             Some row \<Rightarrow> (c, dialect_cache(code \<mapsto> d_id row), d_id row)
           | None \<Rightarrow>
               (let lastrowid = next_id (map d_id (dialect_tbl c))
                in (c\<lparr>dialect_tbl := dialect_tbl c @ [\<lparr>d_id = lastrowid, d_code = code\<rparr>]\<rparr>,
                    dialect_cache(code \<mapsto> lastrowid), lastrowid))))"

definition new_lemma_row :: "int \<Rightarrow> string \<Rightarrow> string \<Rightarrow> lemma_row" where
  "new_lemma_row i hw hw_norm =
     \<lparr> l_id = i, l_headword = hw, l_headword_norm = hw_norm,
       l_etymology_text = SNull, l_etymology_templates = SNull, l_etymology_number = SNull,
       l_inflection_templates = SNull, l_related = SNull, l_synonyms = SNull,
       l_antonyms = SNull, l_categories = SNull, l_entry_extra = SNull \<rparr>"

definition ensure_lemma ::
  "conn \<Rightarrow> json \<Rightarrow> (string \<times> string \<rightharpoonup> int)
   \<Rightarrow> error + (conn \<times> (string \<times> string \<rightharpoonup> int) \<times> int)" where
  "ensure_lemma c headword lemma_cache =
     bindE (normalize headword) (\<lambda>headword_norm.
       case headword of
         JStr hw \<Rightarrow>
           (let key = (hw, headword_norm) in
            case lemma_cache key of
              Some i \<Rightarrow> Inr (c, lemma_cache, i)
            | None \<Rightarrow>
                (case find (\<lambda>r. l_headword r = hw \<and> l_headword_norm r = headword_norm)
                        (lemma_tbl c) of
                   Some row \<Rightarrow> Inr (c, lemma_cache(key \<mapsto> l_id row), l_id row)
                 | None \<Rightarrow>
                     (let lastrowid = next_id (map l_id (lemma_tbl c))
                      in Inr (c\<lparr>lemma_tbl :=
                                  lemma_tbl c @ [new_lemma_row lastrowid hw headword_norm]\<rparr>,
                              lemma_cache(key \<mapsto> lastrowid), lastrowid))))
       | _ \<Rightarrow> Inl AttributeError)"

section \<open>The record extractor\<close>

definition ENTRY_EXTRA_KEYS :: "string list" where
  "ENTRY_EXTRA_KEYS =
     [''pos'', ''word'', ''lang'', ''lang_code'', ''senses'', ''forms'', ''etymology_text'',
      ''etymology_templates'', ''etymology_number'', ''inflection_templates'', ''related'',
      ''synonyms'', ''antonyms'', ''categories'']"

definition SENSE_EXTRA_KEYS :: "string list" where
  "SENSE_EXTRA_KEYS =
     [''id'', ''glosses'', ''tags'', ''form_of'', ''alt_of'', ''qualifier'', ''categories'',
      ''raw_glosses'', ''raw_tags'', ''links'', ''topics'', ''examples'']"

text \<open>\<open>glosses[0]\<close> and \<open>"; ".join(glosses[1:])\<close> on a non-empty object.\<close>

fun py_first :: "json \<Rightarrow> error + json" where
  "py_first (JList (x # xs)) = Inr x"
| "py_first (JStr (c # cs)) = Inr (JStr [c])"
| "py_first (JObj kvs) = Inl KeyError"
| "py_first _ = Inl TypeError"

fun py_str_elem :: "json \<Rightarrow> error + string" where
  "py_str_elem (JStr s) = Inr s"
| "py_str_elem _ = Inl TypeError"

fun py_join_rest :: "json \<Rightarrow> error + json" where
  "py_join_rest (JList (x # xs)) =
     (if xs \<noteq> [] then bindE (mapE py_str_elem xs) (\<lambda>ss. Inr (JStr (join ''; '' ss)))
      else Inr JNull)"
| "py_join_rest (JStr (c # cs)) =
     (if cs \<noteq> [] then Inr (JStr (join ''; '' (map (\<lambda>c. [c]) cs))) else Inr JNull)"
| "py_join_rest _ = Inl TypeError"

text \<open>\<open>extract_gloss\<close> (lines 452 to 458).\<close>

definition extract_gloss :: "json \<Rightarrow> error + (json \<times> json)" where
  "extract_gloss sense =
     bindE (py_get sense ''glosses'') (\<lambda>g.
       let glosses = or_empty g in
       if \<not> truthy glosses then Inr (JStr ''?'', JNull)
       else bindE (py_first glosses) (\<lambda>gloss.
            bindE (py_join_rest glosses) (\<lambda>definition.
              Inr (gloss, definition))))"

text \<open>\<open>extract_entry_metadata\<close> (lines 461 to 484).\<close>

record entry_metadata =
  m_etymology_text :: json
  m_etymology_templates :: json
  m_etymology_number :: json
  m_inflection_templates :: json
  m_related :: json
  m_synonyms :: json
  m_antonyms :: json
  m_categories :: json
  m_entry_extra :: json

definition extract_entry_metadata :: "library \<Rightarrow> json \<Rightarrow> error + entry_metadata" where
  "extract_entry_metadata lib entry =
     bindE (py_get entry ''etymology_text'') (\<lambda>etymology_text.
     bindE (py_get entry ''etymology_templates'') (\<lambda>etymology_templates.
     bindE (py_get entry ''etymology_number'') (\<lambda>etymology_number.
     bindE (py_get entry ''inflection_templates'') (\<lambda>inflection_templates.
     bindE (py_get entry ''related'') (\<lambda>related.
     bindE (py_get entry ''synonyms'') (\<lambda>synonyms.
     bindE (py_get entry ''antonyms'') (\<lambda>antonyms.
     bindE (py_get entry ''categories'') (\<lambda>categories.
     bindE (py_items entry) (\<lambda>items.
       let extra = JObj (filter (\<lambda>kv. fst kv \<notin> set ENTRY_EXTRA_KEYS) items) in
       Inr \<lparr> m_etymology_text = etymology_text,
             m_etymology_templates = dumps_or_none lib etymology_templates,
             m_etymology_number = etymology_number,
             m_inflection_templates = dumps_or_none lib inflection_templates,
             m_related = dumps_or_none lib related,
             m_synonyms = dumps_or_none lib synonyms,
             m_antonyms = dumps_or_none lib antonyms,
             m_categories = dumps_or_none lib categories,
             m_entry_extra = dumps_or_none lib extra \<rparr>)))))))))"

text \<open>
  \<open>extract_sense_metadata\<close> (lines 487 to 514): the dictionary it returns, in the order of
  its keys, which is the order of the columns in the \<open>INSERT\<close>.
\<close>

definition extract_sense_metadata :: "library \<Rightarrow> json \<Rightarrow> error + (string \<times> json) list" where
  "extract_sense_metadata lib sense =
     bindE (py_get sense ''tags'') (\<lambda>tags.
     bindE (py_get sense ''form_of'') (\<lambda>form_of.
     bindE (py_get sense ''alt_of'') (\<lambda>alt_of.
     bindE (py_get sense ''qualifier'') (\<lambda>q.
     bindE (py_get sense ''categories'') (\<lambda>categories.
     bindE (py_get sense ''raw_glosses'') (\<lambda>raw_glosses.
     bindE (py_get sense ''raw_tags'') (\<lambda>raw_tags.
     bindE (py_get sense ''links'') (\<lambda>links.
     bindE (py_get sense ''topics'') (\<lambda>topics.
     bindE (py_get sense ''examples'') (\<lambda>examples.
     bindE (py_items sense) (\<lambda>items.
       let qualifier = (case q of JStr s \<Rightarrow> q | _ \<Rightarrow> JNull);
           extra = JObj (filter (\<lambda>kv. fst kv \<notin> set SENSE_EXTRA_KEYS) items)
       in Inr [(''tags'', dumps_or_none lib tags),
               (''form_of'', dumps_or_none lib form_of),
               (''alt_of'', dumps_or_none lib alt_of),
               (''qualifier'', qualifier),
               (''categories'', dumps_or_none lib categories),
               (''raw_glosses'', dumps_or_none lib raw_glosses),
               (''raw_tags'', dumps_or_none lib raw_tags),
               (''links'', dumps_or_none lib links),
               (''topics'', dumps_or_none lib topics),
               (''examples'', dumps_or_none lib examples),
               (''sense_extra'', dumps_or_none lib extra)])))))))))))"

text \<open>
  \<open>update_lemma_metadata\<close> (lines 517 to 546).  \<open>COALESCE(?, col)\<close> is the parameter when
  it is not NULL, which the column stores converted to its affinity, and the stored value
  otherwise.  The parameters are bound in the order of the statement before any row is
  changed.  Of the nine columns \<open>etymology_number\<close> is declared \<open>INTEGER\<close> and the other
  eight \<open>TEXT\<close>.
\<close>

definition coalesce :: "(param \<Rightarrow> sqlval) \<Rightarrow> param \<Rightarrow> sqlval \<Rightarrow> sqlval" where
  "coalesce affinity a b = (if a \<noteq> PNull then affinity a else b)"

definition metadata_values :: "entry_metadata \<Rightarrow> json list" where
  "metadata_values md =
     [m_etymology_text md, m_etymology_templates md, m_etymology_number md,
      m_inflection_templates md, m_related md, m_synonyms md, m_antonyms md,
      m_categories md, m_entry_extra md]"

definition update_lemma_metadata ::
  "library \<Rightarrow> conn \<Rightarrow> int \<Rightarrow> entry_metadata \<Rightarrow> error + conn" where
  "update_lemma_metadata lib c lemma_id md =
     (if \<not> (\<exists>v \<in> set (metadata_values md). v \<noteq> JNull) then Inr c
      else
        bindE (bind_param (m_etymology_text md)) (\<lambda>etymology_text.
        bindE (bind_param (m_etymology_templates md)) (\<lambda>etymology_templates.
        bindE (bind_param (m_etymology_number md)) (\<lambda>etymology_number.
        bindE (bind_param (m_inflection_templates md)) (\<lambda>inflection_templates.
        bindE (bind_param (m_related md)) (\<lambda>related.
        bindE (bind_param (m_synonyms md)) (\<lambda>synonyms.
        bindE (bind_param (m_antonyms md)) (\<lambda>antonyms.
        bindE (bind_param (m_categories md)) (\<lambda>categories.
        bindE (bind_param (m_entry_extra md)) (\<lambda>entry_extra.
          Inr (c\<lparr>lemma_tbl :=
                 map (\<lambda>r. if l_id r = lemma_id
                          then r\<lparr> l_etymology_text :=
                                    coalesce text_affinity etymology_text (l_etymology_text r),
                                  l_etymology_templates :=
                                    coalesce text_affinity etymology_templates
                                      (l_etymology_templates r),
                                  l_etymology_number :=
                                    coalesce (integer_affinity lib) etymology_number
                                      (l_etymology_number r),
                                  l_inflection_templates :=
                                    coalesce text_affinity inflection_templates
                                      (l_inflection_templates r),
                                  l_related := coalesce text_affinity related (l_related r),
                                  l_synonyms := coalesce text_affinity synonyms (l_synonyms r),
                                  l_antonyms := coalesce text_affinity antonyms (l_antonyms r),
                                  l_categories :=
                                    coalesce text_affinity categories (l_categories r),
                                  l_entry_extra :=
                                    coalesce text_affinity entry_extra (l_entry_extra r) \<rparr>
                          else r)
                   (lemma_tbl c)\<rparr>)))))))))))"

section \<open>The two heuristics\<close>

definition PRONOUN_TYPE_KEYWORDS :: "string list" where
  "PRONOUN_TYPE_KEYWORDS =
     [''personal'', ''demonstrative'', ''relative'', ''interrogative'', ''indefinite'',
      ''reflexive'', ''reciprocal'', ''possessive'', ''proximal'', ''medial'', ''distal'']"

text \<open>
  \<open>extract_pronoun_type\<close> (lines 343 to 360).  The two loops only append to
  \<open>candidates\<close>; \<open>head_candidates\<close> is what one head template appends and
  \<open>sense_tag_strs\<close> what one sense appends.
\<close>

definition head_candidates :: "json \<Rightarrow> error + string list" where
  "head_candidates head =
     bindE (py_get head ''args'') (\<lambda>a.
     bindE (py_items (or_dict a)) (\<lambda>items.
       Inr (concat (map (\<lambda>kv. case snd kv of
                                 JStr s \<Rightarrow> if startswith (fst kv) ''cat'' then [s] else []
                               | _ \<Rightarrow> []) items))))"

definition sense_tag_strs :: "library \<Rightarrow> json \<Rightarrow> error + string list" where
  "sense_tag_strs lib sense =
     bindE (py_get sense ''tags'') (\<lambda>t.
     bindE (py_iter (or_empty t)) (\<lambda>tags.
       Inr (map (py_str lib) tags)))"

definition extract_pronoun_type :: "library \<Rightarrow> json \<Rightarrow> error + string option" where
  "extract_pronoun_type lib entry =
     bindE (py_get entry ''head_templates'') (\<lambda>h.
     bindE (py_iter (or_empty h)) (\<lambda>heads.
     bindE (mapE head_candidates heads) (\<lambda>c1.
     bindE (py_get entry ''senses'') (\<lambda>s.
     bindE (py_iter (or_empty s)) (\<lambda>senses.
     bindE (mapE (sense_tag_strs lib) senses) (\<lambda>c2.
       let candidates = concat c1 @ concat c2;
           candidates_lc = lower (join '' '' candidates)
       in Inr (find (\<lambda>keyword. contains candidates_lc keyword) PRONOUN_TYPE_KEYWORDS)))))))"

text \<open>
  \<open>extract_governs_case\<close> (lines 363 to 398).  The list \<open>cases\<close> that \<open>add_case\<close> mutates
  is threaded through the loops.
\<close>

definition case_mapping :: "(string \<times> string) list" where
  "case_mapping =
     [(''gen'', ''genitive''), (''genitive'', ''genitive''), (''dat'', ''dative''),
      (''dative'', ''dative''), (''acc'', ''accusative''), (''accusative'', ''accusative'')]"

definition add_case :: "string list \<Rightarrow> string \<Rightarrow> string list" where
  "add_case cases raw0 =
     (let raw = lower (strip raw0) in
      case map_of case_mapping raw of
        None \<Rightarrow> cases
      | Some c \<Rightarrow> if c \<notin> set cases then cases @ [c] else cases)"

fun tags_case_loop :: "library \<Rightarrow> string list \<Rightarrow> json list \<Rightarrow> string list" where
  "tags_case_loop lib cases [] = cases"
| "tags_case_loop lib cases (tag # tags) =
     (let tag_lc = lower (py_str lib tag) in
      if startswith tag_lc ''with-''
      then tags_case_loop lib (add_case cases (remove_all ''with-'' tag_lc)) tags
      else tags_case_loop lib cases tags)"

fun senses_case_loop :: "library \<Rightarrow> string list \<Rightarrow> json list \<Rightarrow> error + string list" where
  "senses_case_loop lib cases [] = Inr cases"
| "senses_case_loop lib cases (sense # senses) =
     bindE (py_get sense ''tags'') (\<lambda>t.
     bindE (py_iter (or_empty t)) (\<lambda>tags.
       senses_case_loop lib (tags_case_loop lib cases tags) senses))"

fun parts_case_loop :: "string list \<Rightarrow> string list \<Rightarrow> string list" where
  "parts_case_loop cases [] = cases"
| "parts_case_loop cases (part # parts) = parts_case_loop (add_case cases part) parts"

fun heads_case_loop :: "string list \<Rightarrow> json list \<Rightarrow> error + string list" where
  "heads_case_loop cases [] = Inr cases"
| "heads_case_loop cases (head # heads) =
     bindE (py_get head ''args'') (\<lambda>a.
     bindE (py_get (or_dict a) ''2'') (\<lambda>v.
       case v of
         JStr s \<Rightarrow>
           (let parts = split_on CHR ''/''
                          (replace_char CHR '','' CHR ''/'' (replace_char CHR '';'' CHR ''/'' s))
            in heads_case_loop (parts_case_loop cases parts) heads)
       | _ \<Rightarrow> heads_case_loop cases heads))"

definition extract_governs_case :: "library \<Rightarrow> json \<Rightarrow> error + string option" where
  "extract_governs_case lib entry =
     bindE (py_get entry ''senses'') (\<lambda>s.
     bindE (py_iter (or_empty s)) (\<lambda>senses.
     bindE (senses_case_loop lib [] senses) (\<lambda>cases1.
     bindE (py_get entry ''head_templates'') (\<lambda>h.
     bindE (py_iter (or_empty h)) (\<lambda>heads.
     bindE (heads_case_loop cases1 heads) (\<lambda>cases.
       if cases = [] then Inr None else Inr (Some (join ''/'' cases))))))))"

section \<open>The import driver\<close>

record skip_reasons =
  json_decode_error :: nat
  non_grc :: nat
  missing_pos :: nat
  pos_not_allowed :: nat
  missing_headword :: nat

record import_state =
  st_conn :: conn
  pos_cache :: "string \<rightharpoonup> int"
  dialect_cache :: "string \<rightharpoonup> int"
  lemma_cache :: "string \<times> string \<rightharpoonup> int"
  inserted :: nat
  skipped_pos_counts :: "string \<rightharpoonup> nat"
  skipped_reasons :: skip_reasons

text \<open>\<open>INSERT OR IGNORE INTO lemma_pos\<close> (lines 606 to 609); the primary key is the pair.\<close>

definition insert_lemma_pos :: "conn \<Rightarrow> int \<Rightarrow> int \<Rightarrow> conn" where
  "insert_lemma_pos c lemma_id pos_id =
     (if \<exists>r \<in> set (lemma_pos_tbl c). lp_lemma_id r = lemma_id \<and> lp_pos_id r = pos_id then c
      else c\<lparr>lemma_pos_tbl := lemma_pos_tbl c @
                [\<lparr>lp_lemma_id = lemma_id, lp_pos_id = pos_id, lp_is_primary = 1\<rparr>]\<rparr>)"

text \<open>
  The body of the loop over the senses (lines 613 to 641).  The column \<open>gloss\<close> is
  \<open>NOT NULL\<close>; it, \<open>definition\<close> and the eleven metadata columns are declared \<open>TEXT\<close>.
\<close>

definition insert_sense :: "library \<Rightarrow> int \<Rightarrow> int \<Rightarrow> int \<Rightarrow> json \<Rightarrow> conn \<Rightarrow> error + conn" where
  "insert_sense lib lemma_id pos_id idx sense c =
     bindE (extract_gloss sense) (\<lambda>gd.
     bindE (extract_sense_metadata lib sense) (\<lambda>sense_metadata.
     bindE (bind_param (fst gd)) (\<lambda>gloss.
     bindE (bind_param (snd gd)) (\<lambda>definition.
     bindE (mapE (\<lambda>kv. bindE (bind_param (snd kv)) (\<lambda>v. Inr (fst kv, v))) sense_metadata)
       (\<lambda>metadata.
         if gloss = PNull then Inl IntegrityError
         else Inr (c\<lparr>sense_tbl := sense_tbl c @
                       [\<lparr> s_id = next_id (map s_id (sense_tbl c)),
                          s_lemma_id = lemma_id, s_pos_id = pos_id,
                          s_gloss = text_affinity gloss,
                          s_definition = text_affinity definition,
                          s_sense_order = idx,
                          s_metadata =
                            map (\<lambda>kv. (fst kv, text_affinity (snd kv))) metadata \<rparr>]\<rparr>))))))"

fun senses_loop :: "library \<Rightarrow> int \<Rightarrow> int \<Rightarrow> int \<Rightarrow> json list \<Rightarrow> conn \<Rightarrow> error + conn" where
  "senses_loop lib lemma_id pos_id idx [] c = Inr c"
| "senses_loop lib lemma_id pos_id idx (sense # senses) c =
     bindE (insert_sense lib lemma_id pos_id idx sense c)
       (senses_loop lib lemma_id pos_id (idx + 1) senses)"

text \<open>
  The body of the loop over the forms (lines 644 to 687): \<open>insert_form_row\<close> is the
  \<open>INSERT\<close> statement at its end, \<open>insert_form\<close> the whole body.  The columns \<open>form\<close> and
  \<open>source\<close> are declared \<open>TEXT\<close>.
\<close>

definition insert_form_row ::
  "library \<Rightarrow> int \<Rightarrow> int \<Rightarrow> json \<Rightarrow> string \<Rightarrow> int option \<Rightarrow> parsed_tags \<Rightarrow> string option
   \<Rightarrow> string option \<Rightarrow> json \<Rightarrow> json \<Rightarrow> conn \<Rightarrow> error + conn" where
  "insert_form_row lib lemma_id pos_id form_text form_norm dialect_id parsed pronoun_type
     governs_case tags form_entry c =
     bindE (bind_param form_text) (\<lambda>form_val.
     bindE (py_get form_entry ''source'') (\<lambda>src.
     bindE (bind_param src) (\<lambda>source.
       Inr (c\<lparr>form_tbl := form_tbl c @
                [\<lparr> f_id = next_id (map f_id (form_tbl c)),
                   f_lemma_id = lemma_id, f_pos_id = pos_id,
                   f_form = text_affinity form_val, f_form_norm = form_norm,
                   f_dialect_id = dialect_id,
                   f_tense = pt_tense parsed, f_mood = pt_mood parsed,
                   f_voice = pt_voice parsed, f_person = pt_person parsed,
                   f_number = pt_number parsed, f_grammatical_case = pt_case parsed,
                   f_gender = pt_gender parsed, f_degree = pt_degree parsed,
                   f_verb_form_type = pt_verb_form_type parsed,
                   f_is_principal_part = 0,
                   f_pronoun_type = pronoun_type, f_governs_case = governs_case,
                   f_tags = dumps lib tags,
                   f_source = text_affinity source \<rparr>]\<rparr>))))"

definition insert_form ::
  "library \<Rightarrow> int \<Rightarrow> int \<Rightarrow> string option \<Rightarrow> string option \<Rightarrow> json
   \<Rightarrow> conn \<Rightarrow> (string \<rightharpoonup> int) \<Rightarrow> error + conn \<times> (string \<rightharpoonup> int)" where
  "insert_form lib lemma_id pos_id pronoun_type governs_case form_entry c dcache =
     bindE (should_keep_form form_entry) (\<lambda>keep.
       if \<not> keep then Inr (c, dcache)
       else
         bindE (py_get form_entry ''form'') (\<lambda>form_text.
         bindE (normalize form_text) (\<lambda>form_norm.
         bindE (py_get form_entry ''tags'') (\<lambda>t.
         let tags = or_empty t in
         bindE (parse_tags tags) (\<lambda>parsed.
           case (case pt_dialect parsed of
                   None \<Rightarrow> (c, dcache, None)
                 | Some d \<Rightarrow>
                     if d = [] then (c, dcache, None)
                     else (case ensure_dialect c d dcache of
                             (c', cache', i) \<Rightarrow> (c', cache', Some i))) of
             (c1, dcache', dialect_id) \<Rightarrow>
               bindE (insert_form_row lib lemma_id pos_id form_text form_norm dialect_id
                        parsed pronoun_type governs_case tags form_entry c1)
                 (\<lambda>c2. Inr (c2, dcache')))))))"

fun forms_loop ::
  "library \<Rightarrow> int \<Rightarrow> int \<Rightarrow> string option \<Rightarrow> string option \<Rightarrow> json list
   \<Rightarrow> conn \<Rightarrow> (string \<rightharpoonup> int) \<Rightarrow> error + conn \<times> (string \<rightharpoonup> int)" where
  "forms_loop lib lemma_id pos_id pronoun_type governs_case [] c dcache =
     Inr (c, dcache)"
| "forms_loop lib lemma_id pos_id pronoun_type governs_case (form_entry # forms) c
     dcache =
     bindE (insert_form lib lemma_id pos_id pronoun_type governs_case form_entry c
              dcache)
       (\<lambda>cd. forms_loop lib lemma_id pos_id pronoun_type governs_case forms (fst cd) (snd cd))"

text \<open>
  The part of the loop body that runs for an accepted entry (lines 599 to 691).
  \<open>inserted % commit_every\<close> raises when \<open>commit_every\<close> is 0; a commit does not change
  the contents of the tables.
\<close>

definition persist_entry ::
  "library \<Rightarrow> int \<Rightarrow> json \<Rightarrow> string \<Rightarrow> json \<Rightarrow> import_state \<Rightarrow> error + import_state" where
  "persist_entry lib commit_every entry pos_code headword st =
     bindE (extract_entry_metadata lib entry) (\<lambda>entry_metadata.
     case ensure_pos (st_conn st) pos_code (pos_cache st) of (c1, pos_cache', pos_id) \<Rightarrow>
     bindE (ensure_lemma c1 headword (lemma_cache st)) (\<lambda>r.
     case r of (c2, lemma_cache', lemma_id) \<Rightarrow>
     bindE (update_lemma_metadata lib c2 lemma_id entry_metadata) (\<lambda>c3.
     bindE (if pos_code = ''pron'' then extract_pronoun_type lib entry else Inr None)
       (\<lambda>pronoun_type.
     bindE (if pos_code = ''prep'' then extract_governs_case lib entry else Inr None)
       (\<lambda>governs_case.
     let c4 = insert_lemma_pos c3 lemma_id pos_id in
     bindE (py_get entry ''senses'') (\<lambda>s.
     bindE (py_iter (or_empty s)) (\<lambda>senses.
     bindE (senses_loop lib lemma_id pos_id 0 senses c4) (\<lambda>c5.
     bindE (py_get entry ''forms'') (\<lambda>f.
     bindE (py_iter (or_empty f)) (\<lambda>forms.
     bindE (forms_loop lib lemma_id pos_id pronoun_type governs_case forms c5
              (dialect_cache st)) (\<lambda>cd.
       if commit_every = 0 then Inl ZeroDivisionError
       else Inr (st\<lparr> st_conn := fst cd, pos_cache := pos_cache',
                     dialect_cache := snd cd, lemma_cache := lemma_cache',
                     inserted := inserted st + 1 \<rparr>))))))))))))"

text \<open>
  The loop body from the top (lines 573 to 597): the blank-line test, the parse and the
  four filters, each of which counts its skip and goes to the next line.  Of the
  exceptions of \<open>json.loads\<close> only \<open>JSONDecodeError\<close> is caught; any other ends the run.
\<close>

definition import_line ::
  "library \<Rightarrow> string set \<Rightarrow> int \<Rightarrow> string \<Rightarrow> import_state \<Rightarrow> error + import_state" where
  "import_line lib allowed_pos commit_every line0 st =
     (let line = strip line0; sr = skipped_reasons st in
      if line = [] then Inr st
      else
        case loads lib line of
          Inl err \<Rightarrow>
            if err = JSONDecodeError
            then Inr (st\<lparr>skipped_reasons :=
                          sr\<lparr>json_decode_error := json_decode_error sr + 1\<rparr>\<rparr>)
            else Inl err
        | Inr entry \<Rightarrow>
            bindE (py_get entry ''lang_code'') (\<lambda>lang_code.
              if lang_code \<noteq> JStr ''grc''
              then Inr (st\<lparr>skipped_reasons := sr\<lparr>non_grc := non_grc sr + 1\<rparr>\<rparr>)
              else
                bindE (py_get entry ''pos'') (\<lambda>p.
                bindE (py_strip (if truthy p then p else JStr [])) (\<lambda>pos_code.
                  if pos_code = []
                  then Inr (st\<lparr>skipped_reasons := sr\<lparr>missing_pos := missing_pos sr + 1\<rparr>\<rparr>)
                  else if pos_code \<notin> allowed_pos
                  then Inr (st\<lparr> skipped_reasons :=
                                   sr\<lparr>pos_not_allowed := pos_not_allowed sr + 1\<rparr>,
                                 skipped_pos_counts :=
                                   (skipped_pos_counts st)(pos_code \<mapsto>
                                      (case skipped_pos_counts st pos_code of
                                         None \<Rightarrow> 0 | Some n \<Rightarrow> n) + 1) \<rparr>)
                  else
                    bindE (py_get entry ''word'') (\<lambda>headword.
                      if \<not> truthy headword
                      then Inr (st\<lparr>skipped_reasons :=
                                    sr\<lparr>missing_headword := missing_headword sr + 1\<rparr>\<rparr>)
                      else persist_entry lib commit_every entry pos_code headword st)))))"

fun import_lines ::
  "library \<Rightarrow> string set \<Rightarrow> int \<Rightarrow> string list \<Rightarrow> import_state \<Rightarrow> error + import_state" where
  "import_lines lib allowed_pos commit_every [] st = Inr st"
| "import_lines lib allowed_pos commit_every (line # lines) st =
     bindE (import_line lib allowed_pos commit_every line st)
       (import_lines lib allowed_pos commit_every lines)"

text \<open>
  \<open>import_jsonl\<close> (lines 549 to 694) on the lines of the input file.  The result is the
  state at the end of the run: the store and the tallies that \<open>report_skip_summary\<close>
  prints.
\<close>

definition initial_state :: "conn \<Rightarrow> import_state" where
  "initial_state c =
     \<lparr> st_conn = c, pos_cache = Map.empty, dialect_cache = Map.empty,
       lemma_cache = Map.empty, inserted = 0, skipped_pos_counts = Map.empty,
       skipped_reasons = \<lparr> json_decode_error = 0, non_grc = 0, missing_pos = 0,
                           pos_not_allowed = 0, missing_headword = 0 \<rparr> \<rparr>"

definition import_jsonl ::
  "library \<Rightarrow> conn \<Rightarrow> string list \<Rightarrow> string set \<Rightarrow> int \<Rightarrow> error + import_state" where
  "import_jsonl lib c lines allowed_pos commit_every =
     import_lines lib allowed_pos commit_every lines (initial_state c)"

section \<open>The allow-list\<close>

definition POS_ALIASES :: "(string \<times> string) list" where
  "POS_ALIASES =
     [(''adjective'', ''adj''), (''adj'', ''adj''), (''adverb'', ''adv''), (''adv'', ''adv''),
      (''pronoun'', ''pron''), (''pron'', ''pron''), (''preposition'', ''prep''),
      (''prep'', ''prep''), (''conjunction'', ''conj''), (''conj'', ''conj''),
      (''interjection'', ''intj''), (''intj'', ''intj''), (''determiner'', ''det''),
      (''det'', ''det''), (''article'', ''article''), (''particle'', ''particle''),
      (''noun'', ''noun''), (''verb'', ''verb''), (''number'', ''num''), (''num'', ''num''),
      (''proper noun'', ''name''), (''name'', ''name''), (''prefix'', ''prefix''),
      (''suffix'', ''suffix''), (''postposition'', ''postp''), (''postp'', ''postp'')]"

text \<open>\<open>parse_pos_list\<close> (lines 727 to 735).\<close>

definition pos_alias :: "string \<Rightarrow> string" where
  "pos_alias raw = (case map_of POS_ALIASES raw of None \<Rightarrow> raw | Some mapped \<Rightarrow> mapped)"

fun pos_items_loop :: "string set \<Rightarrow> string list \<Rightarrow> string set" where
  "pos_items_loop result [] = result"
| "pos_items_loop result (item # items) =
     (let raw = lower (strip item) in
      if raw = [] then pos_items_loop result items
      else pos_items_loop (insert (pos_alias raw) result) items)"

definition parse_pos_list :: "string \<Rightarrow> string set" where
  "parse_pos_list pos_list = pos_items_loop {} (split_on CHR '','' pos_list)"

section \<open>The schema manager\<close>

text \<open>
  For \<open>ensure_columns\<close> (lines 292 to 296) the database is its ordinary tables, found by
  their names in lower case (SQLite compares the names of tables and of columns without
  regard to the case of the letters A to Z).  A table is its list of columns and its
  rows, each a list of values in the order of the columns.

  Both statements are f-strings: the table, the column name and the declared type are
  spliced into the text, and SQLite reads the text, not the three strings.
  \<open>table_info_text\<close> and \<open>add_column_text\<close> are the texts; what the parser reads in them are
  the parameters \<open>table_info_stmt\<close> and \<open>add_column_stmt\<close>.  \<open>PRAGMA table_info\<close> of a
  table that does not exist has no rows.  \<open>ALTER TABLE ... ADD COLUMN\<close> fails when the
  table does not exist, when it has a column of that name, or when it already has the
  largest number of columns; otherwise it appends the column, and every row reads the
  default of the column in it.
\<close>

record sql_table =
  t_columns :: "sql_column list"
  t_rows :: "sqlval list list"

type_synonym schema = "string \<rightharpoonup> sql_table"

definition ascii_lower :: "string \<Rightarrow> string" where
  "ascii_lower s =
     map (\<lambda>c. if 65 \<le> (of_char c :: nat) \<and> (of_char c :: nat) \<le> 90 then lower_char c else c) s"

definition table_info_text :: "string \<Rightarrow> string" where
  "table_info_text table = ''PRAGMA table_info('' @ table @ '')''"

definition add_column_text :: "string \<Rightarrow> string \<Rightarrow> string \<Rightarrow> string" where
  "add_column_text table name col_def =
     ''ALTER TABLE '' @ table @ '' ADD COLUMN '' @ name @ '' '' @ col_def"

definition column_names :: "schema \<Rightarrow> string \<Rightarrow> string list" where
  "column_names db named =
     (case db (ascii_lower named) of None \<Rightarrow> [] | Some t \<Rightarrow> map col_name (t_columns t))"

definition table_info :: "library \<Rightarrow> schema \<Rightarrow> string \<Rightarrow> error + string list" where
  "table_info lib db table =
     bindE (table_info_stmt lib (table_info_text table)) (\<lambda>named.
       Inr (column_names db named))"

definition alter_add_column ::
  "library \<Rightarrow> schema \<Rightarrow> string \<Rightarrow> string \<Rightarrow> string \<Rightarrow> error + schema" where
  "alter_add_column lib db table name col_def =
     bindE (add_column_stmt lib (add_column_text table name col_def)) (\<lambda>stmt.
       case db (ascii_lower (ac_table stmt)) of
         None \<Rightarrow> Inl OperationalError
       | Some t \<Rightarrow>
           if ascii_lower (col_name (ac_column stmt))
                \<in> set (map (\<lambda>col. ascii_lower (col_name col)) (t_columns t))
              \<or> max_column lib \<le> length (t_columns t)
           then Inl OperationalError
           else Inr (db(ascii_lower (ac_table stmt) \<mapsto>
                  t\<lparr> t_columns := t_columns t @ [ac_column stmt],
                     t_rows := map (\<lambda>r. r @ [col_default (ac_column stmt)]) (t_rows t) \<rparr>)))"

fun add_missing ::
  "library \<Rightarrow> string set \<Rightarrow> string \<Rightarrow> (string \<times> string) list \<Rightarrow> schema
   \<Rightarrow> error + schema" where
  "add_missing lib existing table [] db = Inr db"
| "add_missing lib existing table ((name, col_def) # columns) db =
     (if name \<notin> existing
      then bindE (alter_add_column lib db table name col_def)
             (add_missing lib existing table columns)
      else add_missing lib existing table columns db)"

definition ensure_columns ::
  "library \<Rightarrow> schema \<Rightarrow> string \<Rightarrow> (string \<times> string) list \<Rightarrow> error + schema" where
  "ensure_columns lib db table columns =
     bindE (table_info lib db table) (\<lambda>rows.
       add_missing lib (set rows) table columns db)"

text \<open>
  \<open>ensure_schema_columns\<close> (lines 299 to 302) with the three dictionaries of optional
  columns (lines 213 to 241).
\<close>

definition LEMMA_EXTRA_COLUMNS :: "(string \<times> string) list" where
  "LEMMA_EXTRA_COLUMNS =
     [(''etymology_text'', ''TEXT''), (''etymology_templates'', ''TEXT''),
      (''etymology_number'', ''INTEGER''), (''inflection_templates'', ''TEXT''),
      (''related'', ''TEXT''), (''synonyms'', ''TEXT''), (''antonyms'', ''TEXT''),
      (''categories'', ''TEXT''), (''entry_extra'', ''TEXT'')]"

definition SENSE_EXTRA_COLUMNS :: "(string \<times> string) list" where
  "SENSE_EXTRA_COLUMNS =
     [(''tags'', ''TEXT''), (''form_of'', ''TEXT''), (''alt_of'', ''TEXT''),
      (''qualifier'', ''TEXT''), (''categories'', ''TEXT''), (''raw_glosses'', ''TEXT''),
      (''raw_tags'', ''TEXT''), (''links'', ''TEXT''), (''topics'', ''TEXT''),
      (''examples'', ''TEXT''), (''sense_extra'', ''TEXT'')]"

definition FORM_EXTRA_COLUMNS :: "(string \<times> string) list" where
  "FORM_EXTRA_COLUMNS = [(''source'', ''TEXT'')]"

definition ensure_schema_columns :: "library \<Rightarrow> schema \<Rightarrow> error + schema" where
  "ensure_schema_columns lib db =
     bindE (ensure_columns lib db ''lemma'' LEMMA_EXTRA_COLUMNS) (\<lambda>db1.
     bindE (ensure_columns lib db1 ''sense'' SENSE_EXTRA_COLUMNS) (\<lambda>db2.
       ensure_columns lib db2 ''form'' FORM_EXTRA_COLUMNS))"

text \<open>
  The declared columns whose names a table does not list, the column that a declaration
  asks for (the declared type, NULL the default), and a table with columns added at the
  end, every row reading their defaults in them.
\<close>

definition missing_columns :: "sql_table \<Rightarrow> (string \<times> string) list \<Rightarrow> (string \<times> string) list" where
  "missing_columns t columns =
     filter (\<lambda>cd. fst cd \<notin> set (map col_name (t_columns t))) columns"

definition declared_column :: "string \<times> string \<Rightarrow> sql_column" where
  "declared_column cd = \<lparr> col_name = fst cd, col_type = snd cd, col_default = SNull \<rparr>"

definition with_columns :: "sql_table \<Rightarrow> sql_column list \<Rightarrow> sql_table" where
  "with_columns t added =
     t\<lparr> t_columns := t_columns t @ added,
        t_rows := map (\<lambda>r. r @ map col_default added) (t_rows t) \<rparr>"

text \<open>
  SQLite reads the statements of \<open>ensure_columns\<close> for a table and a list of declared
  columns as they are meant: the \<open>PRAGMA\<close> names the table, and each \<open>ALTER TABLE\<close> adds
  to that table the column of the declared name and type, with no constraint and NULL
  the default.
\<close>

definition reads_as_written :: "library \<Rightarrow> string \<Rightarrow> (string \<times> string) list \<Rightarrow> bool" where
  "reads_as_written lib table columns =
     (table_info_stmt lib (table_info_text table) = Inr table
      \<and> list_all (\<lambda>cd. add_column_stmt lib (add_column_text table (fst cd) (snd cd))
                          = Inr \<lparr> ac_table = table, ac_column = declared_column cd \<rparr>)
           columns)"

section \<open>The governed-case heuristic in the words of its specification\<close>

text \<open>
  Total readers of an entry: the field of an object (\<open>JNull\<close> when it is missing), and
  the elements that a loop over \<open>v or []\<close> visits.
\<close>

definition get_field :: "json \<Rightarrow> string \<Rightarrow> json" where
  "get_field d k = (case py_get d k of Inr v \<Rightarrow> v | Inl e \<Rightarrow> JNull)"

definition elements :: "json \<Rightarrow> json list" where
  "elements v = (case py_iter (or_empty v) of Inr xs \<Rightarrow> xs | Inl e \<Rightarrow> [])"

definition is_obj :: "json \<Rightarrow> bool" where
  "is_obj v = (case v of JObj kvs \<Rightarrow> True | _ \<Rightarrow> False)"

definition iterable :: "json \<Rightarrow> bool" where
  "iterable v = (case py_iter (or_empty v) of Inr xs \<Rightarrow> True | Inl e \<Rightarrow> False)"

text \<open>
  An entry that the heuristic can read: an object whose \<open>senses\<close> and \<open>head_templates\<close>
  are empty or lists of objects, the \<open>tags\<close> of a sense empty or iterable, the \<open>args\<close> of a
  head template empty or an object.
\<close>

definition well_formed_entry :: "json \<Rightarrow> bool" where
  "well_formed_entry entry =
     (is_obj entry
      \<and> iterable (get_field entry ''senses'')
      \<and> list_all (\<lambda>sense. is_obj sense \<and> iterable (get_field sense ''tags''))
           (elements (get_field entry ''senses''))
      \<and> iterable (get_field entry ''head_templates'')
      \<and> list_all (\<lambda>head. is_obj head \<and> is_obj (or_dict (get_field head ''args'')))
           (elements (get_field entry ''head_templates'')))"

text \<open>
  The raw case hints of the two sources, in the order the entry lists them.  A sense tag
  that begins with \<open>with-\<close> gives what follows that prefix.
\<close>

definition sense_case_hints :: "library \<Rightarrow> json \<Rightarrow> string list" where
  "sense_case_hints lib entry =
     concat (map (\<lambda>sense.
                map (drop (length ''with-''))
                  (filter (\<lambda>t. take (length ''with-'') t = ''with-'')
                     (map (py_str lib) (elements (get_field sense ''tags'')))))
             (elements (get_field entry ''senses'')))"

fun split_where :: "(char \<Rightarrow> bool) \<Rightarrow> string \<Rightarrow> string list" where
  "split_where is_sep [] = [[]]"
| "split_where is_sep (c # cs) =
     (if is_sep c then [] # split_where is_sep cs
      else (case split_where is_sep cs of
              [] \<Rightarrow> [[c]]
            | p # ps \<Rightarrow> (c # p) # ps))"

definition head_case_hints :: "json \<Rightarrow> string list" where
  "head_case_hints entry =
     concat (map (\<lambda>head.
                case get_field (or_dict (get_field head ''args'')) ''2'' of
                  JStr s \<Rightarrow> split_where (\<lambda>c. c = CHR ''/'' \<or> c = CHR '','' \<or> c = CHR '';'') s
                | _ \<Rightarrow> [])
             (elements (get_field entry ''head_templates'')))"

text \<open>The fixed mapping of a raw token; an unrecognised token has no case.\<close>

definition canonical_case :: "string \<Rightarrow> string option" where
  "canonical_case raw =
     (let t = lower (strip raw) in
      if t = ''gen'' \<or> t = ''genitive'' then Some ''genitive''
      else if t = ''dat'' \<or> t = ''dative'' then Some ''dative''
      else if t = ''acc'' \<or> t = ''accusative'' then Some ''accusative''
      else None)"

text \<open>The list without repetitions, each element at its first occurrence.\<close>

definition first_seen :: "'a list \<Rightarrow> 'a list" where
  "first_seen xs = rev (remdups (rev xs))"

definition governs_case_spec :: "library \<Rightarrow> json \<Rightarrow> string option" where
  "governs_case_spec lib entry =
     (let cases = first_seen (List.map_filter canonical_case
                     (sense_case_hints lib entry @ head_case_hints entry))
      in if cases = [] then None else Some (join ''/'' cases))"

text \<open>
  The sense tags in which the prefix is all there is to see: a tag whose text in lower
  case begins with \<open>with-\<close> begins with it as it is written, and no \<open>with-\<close> occurs again
  after the prefix.
\<close>

definition prefix_only :: "string \<Rightarrow> bool" where
  "prefix_only t =
     (\<not> startswith (lower t) ''with-''
      \<or> (startswith t ''with-'' \<and> \<not> contains (drop (length ''with-'') (lower t)) ''with-''))"

definition plain_sense_tags :: "library \<Rightarrow> json \<Rightarrow> bool" where
  "plain_sense_tags lib entry =
     list_all (\<lambda>sense. list_all (\<lambda>tag. prefix_only (py_str lib tag))
                          (elements (get_field sense ''tags'')))
       (elements (get_field entry ''senses''))"

section \<open>Auxiliary notions for the re-import theorem\<close>

text \<open>The natural keys that the store holds.\<close>

definition pos_codes :: "conn \<Rightarrow> string set" where
  "pos_codes c = set (map p_code (pos_tbl c))"

definition dialect_codes :: "conn \<Rightarrow> string set" where
  "dialect_codes c = set (map d_code (dialect_tbl c))"

definition lemma_key :: "lemma_row \<Rightarrow> string \<times> string" where
  "lemma_key r = (l_headword r, l_headword_norm r)"

definition lemma_keys :: "conn \<Rightarrow> (string \<times> string) set" where
  "lemma_keys c = set (map lemma_key (lemma_tbl c))"

definition keys_le :: "conn \<Rightarrow> conn \<Rightarrow> bool" where
  "keys_le c c' =
     (pos_codes c \<subseteq> pos_codes c' \<and> dialect_codes c \<subseteq> dialect_codes c'
      \<and> lemma_keys c \<subseteq> lemma_keys c')"

text \<open>Every key in a cache of the run is a key of the store.\<close>

definition cache_ok :: "import_state \<Rightarrow> bool" where
  "cache_ok st =
     (dom (pos_cache st) \<subseteq> pos_codes (st_conn st)
      \<and> dom (dialect_cache st) \<subseteq> dialect_codes (st_conn st)
      \<and> dom (lemma_cache st) \<subseteq> lemma_keys (st_conn st))"

text \<open>The dialect that \<open>insert_form\<close> resolves for a form entry, if it resolves one.\<close>

definition form_dialect :: "json \<Rightarrow> string option" where
  "form_dialect form_entry =
     (case should_keep_form form_entry of
        Inr True \<Rightarrow>
          (case py_get form_entry ''tags'' of
             Inr t \<Rightarrow>
               (case parse_tags (or_empty t) of
                  Inr parsed \<Rightarrow>
                    (case pt_dialect parsed of
                       Some d \<Rightarrow> if d = [] then None else Some d
                     | None \<Rightarrow> None)
                | Inl e \<Rightarrow> None)
           | Inl e \<Rightarrow> None)
      | _ \<Rightarrow> None)"

text \<open>
  The entry of a line that passes the filters of \<open>import_line\<close>, with its stripped code and
  its headword; \<open>None\<close> for a line that is blank, skipped or raises before it is accepted.
\<close>

definition accepted_entry :: "library \<Rightarrow> string set \<Rightarrow> string \<Rightarrow> (json \<times> string \<times> json) option" where
  "accepted_entry lib allowed_pos line0 =
     (let line = strip line0 in
      if line = [] then None
      else
        case loads lib line of
          Inl err \<Rightarrow> None
        | Inr entry \<Rightarrow>
            (case py_get entry ''lang_code'' of
               Inr lang_code \<Rightarrow>
                 if lang_code \<noteq> JStr ''grc'' then None
                 else
                   (case py_get entry ''pos'' of
                      Inr p \<Rightarrow>
                        (case py_strip (if truthy p then p else JStr []) of
                           Inr pos_code \<Rightarrow>
                             if pos_code = [] \<or> pos_code \<notin> allowed_pos then None
                             else
                               (case py_get entry ''word'' of
                                  Inr headword \<Rightarrow>
                                    if truthy headword then Some (entry, pos_code, headword)
                                    else None
                                | Inl e \<Rightarrow> None)
                         | Inl e \<Rightarrow> None)
                    | Inl e \<Rightarrow> None)
             | Inl e \<Rightarrow> None))"

text \<open>
  The store holds every key that an accepted entry resolves; the numbers of senses and of
  admitted forms of an entry and of a line.
\<close>

definition has_keys :: "conn \<Rightarrow> json \<times> string \<times> json \<Rightarrow> bool" where
  "has_keys c a =
     (case a of (entry, pos_code, headword) \<Rightarrow>
        pos_code \<in> pos_codes c
        \<and> (\<forall>hw. headword = JStr hw \<longrightarrow> (hw, lower hw) \<in> lemma_keys c)
        \<and> (\<forall>fe \<in> set (elements (get_field entry ''forms'')).
              \<forall>d. form_dialect fe = Some d \<longrightarrow> d \<in> dialect_codes c))"

definition entry_sense_count :: "json \<Rightarrow> nat" where
  "entry_sense_count entry = length (elements (get_field entry ''senses''))"

definition entry_form_count :: "json \<Rightarrow> nat" where
  "entry_form_count entry =
     length (filter (\<lambda>fe. should_keep_form fe = Inr True)
               (elements (get_field entry ''forms'')))"

definition line_has_keys :: "library \<Rightarrow> string set \<Rightarrow> conn \<Rightarrow> string \<Rightarrow> bool" where
  "line_has_keys lib allowed_pos c line =
     (case accepted_entry lib allowed_pos line of None \<Rightarrow> True | Some a \<Rightarrow> has_keys c a)"

definition line_sense_count :: "library \<Rightarrow> string set \<Rightarrow> string \<Rightarrow> nat" where
  "line_sense_count lib allowed_pos line =
     (case accepted_entry lib allowed_pos line of
        None \<Rightarrow> 0 | Some a \<Rightarrow> entry_sense_count (fst a))"

definition line_form_count :: "library \<Rightarrow> string set \<Rightarrow> string \<Rightarrow> nat" where
  "line_form_count lib allowed_pos line =
     (case accepted_entry lib allowed_pos line of
        None \<Rightarrow> 0 | Some a \<Rightarrow> entry_form_count (fst a))"

text \<open>The senses and the admitted forms of all the accepted entries of a stream.\<close>

definition stream_sense_count :: "library \<Rightarrow> string set \<Rightarrow> string list \<Rightarrow> nat" where
  "stream_sense_count lib allowed_pos lines =
     sum_list (map (line_sense_count lib allowed_pos) lines)"

definition stream_form_count :: "library \<Rightarrow> string set \<Rightarrow> string list \<Rightarrow> nat" where
  "stream_form_count lib allowed_pos lines =
     sum_list (map (line_form_count lib allowed_pos) lines)"

text \<open>The numbers of rows of \<open>lemma\<close>, \<open>pos\<close>, \<open>dialect\<close>, \<open>sense\<close> and \<open>form\<close>.\<close>

definition row_counts :: "conn \<Rightarrow> nat list" where
  "row_counts c =
     [length (lemma_tbl c), length (pos_tbl c), length (dialect_tbl c),
      length (sense_tbl c), length (form_tbl c)]"

section \<open>Tallies and example data\<close>

text \<open>
  The five skip-reason counters and the count of accepted entries, in the order of the
  report.
\<close>

definition tallies :: "import_state \<Rightarrow> nat list" where
  "tallies st =
     [json_decode_error (skipped_reasons st), non_grc (skipped_reasons st),
      missing_pos (skipped_reasons st), pos_not_allowed (skipped_reasons st),
      missing_headword (skipped_reasons st), inserted st]"


text \<open>
  Example data.  The \<open>loads\<close> of \<open>example_lib\<close> parses seven example lines, named by their
  text, raises \<open>RecursionError\<close> on an eighth and \<open>JSONDecodeError\<close> on every other line;
  its \<open>dumps\<close> and \<open>str\<close> are constant.  Its SQLite reads one real number, the \<open>PRAGMA\<close>
  for the table \<open>lemma\<close> and two \<open>ALTER TABLE\<close> statements for it.
\<close>

definition example_lib :: library where
  "example_lib =
     \<lparr> loads = (\<lambda>s.
         if s = ''noun-line'' then
           Inr (JObj [(''lang_code'', JStr ''grc''), (''pos'', JStr ''noun''),
                      (''word'', JStr ''logos''),
                      (''senses'', JList [JObj [(''glosses'', JList [JStr ''word'', JStr ''speech''])]]),
                      (''forms'',
                       JList [JObj [(''form'', JStr ''logou''),
                                    (''tags'', JList [JStr ''genitive'', JStr ''singular''])],
                              JObj [(''form'', JStr ''logoio''),
                                    (''tags'', JList [JStr ''genitive'', JStr ''singular'',
                                                     JStr ''Epic''])]])])
         else if s = ''adjective-line'' then
           Inr (JObj [(''lang_code'', JStr ''grc''), (''pos'', JStr ''adjective''),
                      (''word'', JStr ''kalos'')])
         else if s = ''latin-line'' then Inr (JObj [(''lang_code'', JStr ''la'')])
         else if s = ''old-etymology-line'' then
           Inr (JObj [(''lang_code'', JStr ''grc''), (''pos'', JStr ''noun''),
                      (''word'', JStr ''logos''), (''etymology_text'', JStr ''old'')])
         else if s = ''new-etymology-line'' then
           Inr (JObj [(''lang_code'', JStr ''grc''), (''pos'', JStr ''noun''),
                      (''word'', JStr ''logos''), (''etymology_text'', JStr ''new'')])
         else if s = ''list-line'' then Inr (JList [JInt 1])
         else if s = ''numeric-pos-line'' then
           Inr (JObj [(''lang_code'', JStr ''grc''), (''pos'', JInt 5),
                      (''word'', JStr ''logos'')])
         else if s = ''deep-line'' then Inl RecursionError
         else Inl JSONDecodeError),
       dumps = (\<lambda>v. ''[]''),
       str_of = (\<lambda>v. ''None''),
       number_of_text = (\<lambda>s. if s = ''7.5'' then Some (NReal 15 (- 1)) else None),
       table_info_stmt = (\<lambda>s.
         if s = ''PRAGMA table_info(lemma)'' then Inr ''lemma'' else Inl OperationalError),
       add_column_stmt = (\<lambda>s.
         if s = ''ALTER TABLE lemma ADD COLUMN etymology_text TEXT'' then
           Inr \<lparr> ac_table = ''lemma'',
                 ac_column = \<lparr> col_name = ''etymology_text'', col_type = ''TEXT'',
                               col_default = SNull \<rparr> \<rparr>
         else if s = ''ALTER TABLE lemma ADD COLUMN related TEXT'' then
           Inr \<lparr> ac_table = ''lemma'',
                 ac_column = \<lparr> col_name = ''related'', col_type = ''TEXT'',
                               col_default = SNull \<rparr> \<rparr>
         else Inl OperationalError),
       max_column = 2000 \<rparr>"

definition empty_conn :: conn where
  "empty_conn = \<lparr> lemma_tbl = [], pos_tbl = [], lemma_pos_tbl = [], sense_tbl = [],
                  dialect_tbl = [], form_tbl = [] \<rparr>"

definition example_lines :: "string list" where
  "example_lines = [''noun-line'', ''  '', ''garbage'', ''latin-line'', ''adjective-line'']"

definition adjective_entry :: json where
  "adjective_entry = JObj [(''lang_code'', JStr ''grc''), (''pos'', JStr ''adjective''),
                       (''word'', JStr ''kalos'')]"



definition example_table :: "string \<Rightarrow> sql_table" where
  "example_table related =
     \<lparr> t_columns =
         [\<lparr> col_name = ''id'', col_type = ''INTEGER'', col_default = SNull \<rparr>,
          \<lparr> col_name = ''headword'', col_type = ''TEXT'', col_default = SNull \<rparr>,
          \<lparr> col_name = related, col_type = ''TEXT'', col_default = SNull \<rparr>],
       t_rows = [[SInt 1, SText ''logos'', SNull]] \<rparr>"

definition example_columns :: "(string \<times> string) list" where
  "example_columns = [(''etymology_text'', ''TEXT''), (''related'', ''TEXT'')]"

definition preposition_entry :: json where
  "preposition_entry =
     JObj [(''lang_code'', JStr ''grc''), (''pos'', JStr ''prep''), (''word'', JStr ''para''),
           (''senses'', JList [JObj [(''tags'', JList [JStr ''with-genitive'', JStr ''rare''])],
                                JObj [(''tags'', JList [JStr ''with-Dat'', JStr ''With'']),
                                      (''glosses'', JList [JStr ''beside''])]]),
           (''head_templates'',
              JList [JObj [(''args'', JObj [(''1'', JStr ''x''), (''2'', JStr ''ACC, foo;acc/dat'')])]])]"

definition sense_tags_entry :: "string \<Rightarrow> json" where
  "sense_tags_entry tag = JObj [(''senses'', JList [JObj [(''tags'', JList [JStr tag])]])]"

section \<open>Basic facts\<close>

lemma bindE_simps [simp]: "bindE (Inl e) f = Inl e" "bindE (Inr x) f = f x"
  by (simp_all add: bindE_def)

lemma bindE_eq_Inr: "bindE m f = Inr y \<longleftrightarrow> (\<exists>x. m = Inr x \<and> f x = Inr y)"
  by (cases m) simp_all

lemma bindE_eq_Inl: "bindE m f = Inl e \<longleftrightarrow> m = Inl e \<or> (\<exists>x. m = Inr x \<and> f x = Inl e)"
  by (cases m) simp_all

lemma bindE_InrE: "bindE m f = Inr y \<Longrightarrow> (\<And>x. m = Inr x \<Longrightarrow> f x = Inr y \<Longrightarrow> P) \<Longrightarrow> P"
  by (cases m) simp_all

lemma if_Inl_Inr: "((if b then Inl e else Inr x) = Inr y) = (\<not> b \<and> x = y)"
  by simp

lemmas vocab_defs =
  vocabularies_def DIALECT_TAGS_def CASE_TAGS_def NUMBER_TAGS_def GENDER_TAGS_def
  PERSON_TAGS_def TENSE_TAGS_def MOOD_TAGS_def VOICE_TAGS_def DEGREE_TAGS_def
  VERB_FORM_TAGS_def

lemma mapE_lower_Inl:
  "mapE py_lower ts = Inl e \<Longrightarrow> e = AttributeError \<and> (\<exists>t\<in>set ts. \<forall>s. t \<noteq> JStr s)"
proof (induction ts arbitrary: e)
  case Nil
  then show ?case by simp
next
  case (Cons a ts)
  then show ?case by (cases a) (auto simp: bindE_eq_Inl)
qed

lemma mapE_lower_Inr:
  "mapE py_lower ts = Inr ls \<Longrightarrow>
   (\<forall>t\<in>set ts. \<exists>s. t = JStr s) \<and>
   set ls = (\<lambda>t. case t of JStr s \<Rightarrow> lower s | _ \<Rightarrow> []) ` set ts"
proof (induction ts arbitrary: ls)
  case Nil
  then show ?case by simp
next
  case (Cons a ts)
  then show ?case by (cases a) (auto simp: bindE_eq_Inr)
qed

lemma mapE_lower_strs: "mapE py_lower (map JStr ss) = Inr (map lower ss)"
  by (induction ss) simp_all

section \<open>Vocabulary disjointness\<close>

lemma vocabulary_keys_distinct: "distinct (concat (map (map fst) vocabularies))"
  by (simp add: vocab_defs)

lemma distinct_concat_nth_disjoint:
  "distinct (concat xss) \<Longrightarrow> i < length xss \<Longrightarrow> j < length xss \<Longrightarrow> i \<noteq> j \<Longrightarrow>
   set (xss ! i) \<inter> set (xss ! j) = {}"
proof (induction xss arbitrary: i j)
  case Nil
  then show ?case by simp
next
  case (Cons xs xss)
  show ?case
  proof (cases i)
    case 0
    then obtain j' where j: "j = Suc j'" using Cons.prems by (cases j) auto
    then have "set (xss ! j') \<subseteq> \<Union> (set ` set xss)" using Cons.prems by auto
    then show ?thesis using Cons.prems 0 j by auto
  next
    case (Suc i')
    show ?thesis
    proof (cases j)
      case 0
      have "set (xss ! i') \<subseteq> \<Union> (set ` set xss)" using Cons.prems Suc by auto
      then show ?thesis using Cons.prems 0 Suc by auto
    next
      case (Suc j')
      then show ?thesis using Cons.prems \<open>i = Suc i'\<close> Cons.IH[of i' j'] by simp
    qed
  qed
qed

text \<open>
  Claim C7.  The ten vocabulary tables of the tag classifier (\<open>DIALECT_TAGS\<close> to
  \<open>VERB_FORM_TAGS\<close>) have pairwise disjoint key sets: no tag token is a key of two
  different tables.
\<close>

theorem vocabularies_pairwise_disjoint:
  "i < length vocabularies \<Longrightarrow> j < length vocabularies \<Longrightarrow> i \<noteq> j \<Longrightarrow>
   set (map fst (vocabularies ! i)) \<inter> set (map fst (vocabularies ! j)) = {}"
  using distinct_concat_nth_disjoint[OF vocabulary_keys_distinct, of i j] by simp

theorem vocabularies_pairwise_disjoint_witness:
  "length vocabularies = 10 \<and> vocabularies ! 1 = CASE_TAGS \<and> vocabularies ! 5 = TENSE_TAGS
   \<and> set (map fst (vocabularies ! 1)) \<inter> set (map fst (vocabularies ! 5)) = {}"
  using vocabularies_pairwise_disjoint[of 1 5] by (simp add: vocabularies_def)

section \<open>The tag classifier does not depend on the order of the tags\<close>

text \<open>
  Claim C4.  Two tag lists with the same set of tag tokens, in any order and with any
  repetition, get the same result from \<open>parse_tags\<close> in all ten slots (and the same
  exception when a tag is not a string).  The two heuristics, \<open>extract_pronoun_type\<close>
  and \<open>extract_governs_case\<close>, read nothing but their arguments and the constant tables,
  so they are functions of the entry.
\<close>

theorem parse_tags_order_independent:
  "set tags1 = set tags2 \<Longrightarrow> parse_tags (JList tags1) = parse_tags (JList tags2)"
proof -
  assume eq: "set tags1 = set tags2"
  show ?thesis
  proof (cases "mapE py_lower tags1")
    case (Inl e)
    from mapE_lower_Inl[OF Inl] eq obtain t
      where e: "e = AttributeError" and t: "t \<in> set tags2" "\<forall>s. t \<noteq> JStr s" by auto
    have "mapE py_lower tags2 = Inl AttributeError"
    proof (cases "mapE py_lower tags2")
      case (Inl e2)
      then show ?thesis using mapE_lower_Inl by blast
    next
      case (Inr ls)
      then show ?thesis using mapE_lower_Inr[OF Inr] t by blast
    qed
    then show ?thesis using Inl e by (simp add: parse_tags_def)
  next
    case (Inr ls1)
    note r1 = mapE_lower_Inr[OF Inr]
    show ?thesis
    proof (cases "mapE py_lower tags2")
      case (Inl e2)
      then show ?thesis using mapE_lower_Inl[OF Inl] r1 eq by blast
    next
      case r: (Inr ls2)
      have "set ls1 = set ls2" using r1 mapE_lower_Inr[OF r] eq by simp
      then show ?thesis using Inr r by (simp add: parse_tags_def)
    qed
  qed
qed

theorem parse_tags_order_independent_witness:
  "set [JStr ''genitive'', JStr ''Singular'', JStr ''genitive'']
     = set [JStr ''Singular'', JStr ''genitive'']
   \<and> parse_tags (JList [JStr ''genitive'', JStr ''Singular'', JStr ''genitive''])
     = parse_tags (JList [JStr ''Singular'', JStr ''genitive''])"
  using parse_tags_order_independent
          [of "[JStr ''genitive'', JStr ''Singular'', JStr ''genitive'']"
              "[JStr ''Singular'', JStr ''genitive'']"]
  by auto

section \<open>The form admission filter\<close>

text \<open>
  Claim C5.  For a form entry whose \<open>tags\<close> are a list of strings (or missing, which
  reads as the empty list), \<open>should_keep_form\<close> rejects the entry exactly when its
  \<open>form\<close> is missing or empty, or is the placeholder \<open>-\<close>, or the tag list is empty, or
  a lower-cased tag is one of \<open>romanization\<close>, \<open>inflection-template\<close>, \<open>table-tags\<close>,
  \<open>class\<close>; otherwise it keeps the entry.
\<close>

theorem should_keep_form_rejects_iff:
  assumes "py_get (JObj kvs) ''form'' = Inr form"
      and "py_get_default (JObj kvs) ''tags'' (JList []) = Inr (JList (map JStr tags))"
  shows "should_keep_form (JObj kvs) =
           Inr (\<not> (\<not> truthy form \<or> form = JStr ''-'' \<or> tags = []
                    \<or> (\<exists>t \<in> set tags. lower t \<in> {''romanization'', ''inflection-template'',
                                                  ''table-tags'', ''class''})))"
  using assms unfolding should_keep_form_def
  by (auto simp: mapE_lower_strs image_iff)

theorem should_keep_form_rejects_iff_witness:
  "should_keep_form (JObj [(''form'', JStr ''-''), (''tags'', JList [JStr ''table-tags''])]) = Inr False
   \<and> should_keep_form (JObj [(''form'', JStr ''-''), (''tags'', JList [JStr ''genitive''])]) = Inr False
   \<and> should_keep_form (JObj [(''form'', JStr ''x''), (''tags'', JList [JStr ''Table-Tags''])]) = Inr False
   \<and> should_keep_form (JObj [(''form'', JStr ''x''), (''tags'', JList [JStr ''genitive''])]) = Inr True"
  using should_keep_form_rejects_iff[of "[(''form'', JStr ''-''), (''tags'', JList [JStr ''table-tags''])]" "JStr ''-''" "[''table-tags'']"]
        should_keep_form_rejects_iff[of "[(''form'', JStr ''-''), (''tags'', JList [JStr ''genitive''])]" "JStr ''-''" "[''genitive'']"]
        should_keep_form_rejects_iff[of "[(''form'', JStr ''x''), (''tags'', JList [JStr ''Table-Tags''])]" "JStr ''x''" "[''Table-Tags'']"]
        should_keep_form_rejects_iff[of "[(''form'', JStr ''x''), (''tags'', JList [JStr ''genitive''])]" "JStr ''x''" "[''genitive'']"]
  by (simp add: py_get_def lower_def lower_char_def)

section \<open>Evaluation of the model on concrete data\<close>

lemmas model_defs =
  import_jsonl_def initial_state_def import_line_def persist_entry_def
  extract_entry_metadata_def update_lemma_metadata_def metadata_values_def
  ensure_pos_def ensure_lemma_def ensure_dialect_def insert_lemma_pos_def
  insert_sense_def insert_form_def insert_form_row_def extract_gloss_def extract_sense_metadata_def
  should_keep_form_def parse_tags_def normalize_def py_get_def or_empty_def or_dict_def
  dumps_or_none_def next_id_def new_lemma_row_def coalesce_def text_affinity_def
  strip_def is_space_def lower_def lower_char_def Let_def
  ENTRY_EXTRA_KEYS_def SENSE_EXTRA_KEYS_def vocab_defs

lemma strip_examples [simp]:
  "strip ''noun-line'' = ''noun-line''" "strip ''  '' = []" "strip ''garbage'' = ''garbage''"
  "strip ''latin-line'' = ''latin-line''" "strip ''adjective-line'' = ''adjective-line''"
  "strip ''old-etymology-line'' = ''old-etymology-line''"
  "strip ''new-etymology-line'' = ''new-etymology-line''"
  "strip ''list-line'' = ''list-line''" "strip ''numeric-pos-line'' = ''numeric-pos-line''"
  "strip ''deep-line'' = ''deep-line''"
  by (simp_all add: strip_def is_space_def)

section \<open>Lemma metadata: the incoming value wins\<close>


lemma update_lemma_metadata_InrE:
  assumes "update_lemma_metadata lib c lid md = Inr c'"
  obtains (unchanged) "\<forall>v \<in> set (metadata_values md). v = JNull" "c' = c"
  | (updated) v1 v2 v3 v4 v5 v6 v7 v8 v9 where
      "bind_param (m_etymology_text md) = Inr v1"
      "bind_param (m_etymology_templates md) = Inr v2"
      "bind_param (m_etymology_number md) = Inr v3"
      "bind_param (m_inflection_templates md) = Inr v4"
      "bind_param (m_related md) = Inr v5"
      "bind_param (m_synonyms md) = Inr v6"
      "bind_param (m_antonyms md) = Inr v7"
      "bind_param (m_categories md) = Inr v8"
      "bind_param (m_entry_extra md) = Inr v9"
      "c' = c\<lparr>lemma_tbl :=
                 map (\<lambda>r. if l_id r = lid
                          then r\<lparr> l_etymology_text :=
                                    coalesce text_affinity v1 (l_etymology_text r),
                                  l_etymology_templates :=
                                    coalesce text_affinity v2 (l_etymology_templates r),
                                  l_etymology_number :=
                                    coalesce (integer_affinity lib) v3 (l_etymology_number r),
                                  l_inflection_templates :=
                                    coalesce text_affinity v4 (l_inflection_templates r),
                                  l_related := coalesce text_affinity v5 (l_related r),
                                  l_synonyms := coalesce text_affinity v6 (l_synonyms r),
                                  l_antonyms := coalesce text_affinity v7 (l_antonyms r),
                                  l_categories := coalesce text_affinity v8 (l_categories r),
                                  l_entry_extra := coalesce text_affinity v9 (l_entry_extra r) \<rparr>
                          else r)
                   (lemma_tbl c)\<rparr>"
proof (cases "\<exists>v \<in> set (metadata_values md). v \<noteq> JNull")
  case False
  then show ?thesis using assms unchanged by (simp add: update_lemma_metadata_def)
next
  case True
  then show ?thesis
    using assms unfolding update_lemma_metadata_def
    apply (simp only: if_False not_not not_True_eq_False)
    apply (elim bindE_InrE)
    apply (rule updated; assumption?)
    apply simp
    done
qed





section \<open>Skip accounting\<close>

lemma persist_entry_InrE:
  assumes "persist_entry lib ce entry pos_code headword st = Inr st'"
  obtains md c1 pc pid c2 lc lid c3 pt gc s senses c5 f forms c6 dc where
    "extract_entry_metadata lib entry = Inr md"
    "ensure_pos (st_conn st) pos_code (pos_cache st) = (c1, pc, pid)"
    "ensure_lemma c1 headword (lemma_cache st) = Inr (c2, lc, lid)"
    "update_lemma_metadata lib c2 lid md = Inr c3"
    "(if pos_code = ''pron'' then extract_pronoun_type lib entry else Inr None) = Inr pt"
    "(if pos_code = ''prep'' then extract_governs_case lib entry else Inr None) = Inr gc"
    "py_get entry ''senses'' = Inr s" "py_iter (or_empty s) = Inr senses"
    "senses_loop lib lid pid 0 senses (insert_lemma_pos c3 lid pid) = Inr c5"
    "py_get entry ''forms'' = Inr f" "py_iter (or_empty f) = Inr forms"
    "forms_loop lib lid pid pt gc forms c5 (dialect_cache st) = Inr (c6, dc)"
    "ce \<noteq> 0"
    "st' = st\<lparr>st_conn := c6, pos_cache := pc, dialect_cache := dc, lemma_cache := lc,
              inserted := inserted st + 1\<rparr>"
proof -
  obtain c1 pc pid where ep: "ensure_pos (st_conn st) pos_code (pos_cache st) = (c1, pc, pid)"
    by (metis prod_cases3)
  show ?thesis
    using assms unfolding persist_entry_def
    apply (clarsimp simp: ep bindE_eq_Inr Let_def if_Inl_Inr)
    apply (rule that[OF _ ep])
    apply (assumption | simp)+
    done
qed

lemma persist_entry_tallies:
  "persist_entry lib ce entry pos_code headword st = Inr st' \<Longrightarrow>
   skipped_reasons st' = skipped_reasons st \<and> skipped_pos_counts st' = skipped_pos_counts st
   \<and> inserted st' = inserted st + 1"
  by (erule persist_entry_InrE) simp

lemma persist_entry_one_tally:
  "persist_entry lib ce entry pos_code headword st = Inr st' \<Longrightarrow>
   tallies st' = (tallies st)[5 := tallies st ! 5 + 1]"
  by (drule persist_entry_tallies) (simp add: tallies_def)

lemma import_line_blank:
  "strip line = [] \<Longrightarrow> import_line lib allowed ce line st = Inr st"
  by (simp add: import_line_def)

lemma import_line_one_tally:
  assumes "import_line lib allowed ce line st = Inr st'" and "strip line \<noteq> []"
  shows "\<exists>k<6. tallies st' = (tallies st)[k := tallies st ! k + 1]"
proof (cases "loads lib (strip line)")
  case (Inl err)
  with assms have "tallies st' = (tallies st)[0 := tallies st ! 0 + 1]"
    by (auto simp: import_line_def tallies_def Let_def split: if_splits)
  then show ?thesis by (intro exI[of _ 0]) simp
next
  case (Inr entry)
  with assms obtain lc where lc: "py_get entry ''lang_code'' = Inr lc"
    and r1: "(if lc \<noteq> JStr ''grc''
              then Inr (st\<lparr>skipped_reasons := (skipped_reasons st)\<lparr>non_grc := non_grc (skipped_reasons st) + 1\<rparr>\<rparr>)
              else
                bindE (py_get entry ''pos'') (\<lambda>p.
                bindE (py_strip (if truthy p then p else JStr [])) (\<lambda>pos_code.
                  if pos_code = []
                  then Inr (st\<lparr>skipped_reasons := (skipped_reasons st)\<lparr>missing_pos := missing_pos (skipped_reasons st) + 1\<rparr>\<rparr>)
                  else if pos_code \<notin> allowed
                  then Inr (st\<lparr> skipped_reasons :=
                                   (skipped_reasons st)\<lparr>pos_not_allowed := pos_not_allowed (skipped_reasons st) + 1\<rparr>,
                                 skipped_pos_counts :=
                                   (skipped_pos_counts st)(pos_code \<mapsto>
                                      (case skipped_pos_counts st pos_code of
                                         None \<Rightarrow> 0 | Some n \<Rightarrow> n) + 1) \<rparr>)
                  else
                    bindE (py_get entry ''word'') (\<lambda>headword.
                      if \<not> truthy headword
                      then Inr (st\<lparr>skipped_reasons :=
                                    (skipped_reasons st)\<lparr>missing_headword := missing_headword (skipped_reasons st) + 1\<rparr>\<rparr>)
                      else persist_entry lib ce entry pos_code headword st)))) = Inr st'"
    by (auto simp: import_line_def Let_def bindE_eq_Inr)
  show ?thesis
  proof (cases "lc = JStr ''grc''")
    case False
    with r1 have "tallies st' = (tallies st)[1 := tallies st ! 1 + 1]"
      by (auto simp: tallies_def)
    then show ?thesis by (intro exI[of _ 1]) simp
  next
    case True
    with r1 obtain p pos_code where "py_get entry ''pos'' = Inr p"
      and pc: "py_strip (if truthy p then p else JStr []) = Inr pos_code"
      and r2: "(if pos_code = []
                  then Inr (st\<lparr>skipped_reasons := (skipped_reasons st)\<lparr>missing_pos := missing_pos (skipped_reasons st) + 1\<rparr>\<rparr>)
                  else if pos_code \<notin> allowed
                  then Inr (st\<lparr> skipped_reasons :=
                                   (skipped_reasons st)\<lparr>pos_not_allowed := pos_not_allowed (skipped_reasons st) + 1\<rparr>,
                                 skipped_pos_counts :=
                                   (skipped_pos_counts st)(pos_code \<mapsto>
                                      (case skipped_pos_counts st pos_code of
                                         None \<Rightarrow> 0 | Some n \<Rightarrow> n) + 1) \<rparr>)
                  else
                    bindE (py_get entry ''word'') (\<lambda>headword.
                      if \<not> truthy headword
                      then Inr (st\<lparr>skipped_reasons :=
                                    (skipped_reasons st)\<lparr>missing_headword := missing_headword (skipped_reasons st) + 1\<rparr>\<rparr>)
                      else persist_entry lib ce entry pos_code headword st)) = Inr st'"
      by (auto simp: bindE_eq_Inr)
    consider (a) "pos_code = []" | (b) "pos_code \<noteq> []" "pos_code \<notin> allowed"
      | (c) "pos_code \<noteq> []" "pos_code \<in> allowed" by blast
    then show ?thesis
    proof cases
      case a
      with r2 have "tallies st' = (tallies st)[2 := tallies st ! 2 + 1]"
        by (auto simp: tallies_def)
      then show ?thesis by (intro exI[of _ 2]) simp
    next
      case b
      with r2 have "tallies st' = (tallies st)[3 := tallies st ! 3 + 1]"
        by (auto simp: tallies_def)
      then show ?thesis by (intro exI[of _ 3]) simp
    next
      case c
      with r2 obtain headword where "py_get entry ''word'' = Inr headword"
        and r3: "(if \<not> truthy headword
                      then Inr (st\<lparr>skipped_reasons :=
                                    (skipped_reasons st)\<lparr>missing_headword := missing_headword (skipped_reasons st) + 1\<rparr>\<rparr>)
                      else persist_entry lib ce entry pos_code headword st) = Inr st'"
        by (auto simp: bindE_eq_Inr)
      show ?thesis
      proof (cases "truthy headword")
        case False
        with r3 have "tallies st' = (tallies st)[4 := tallies st ! 4 + 1]"
          by (auto simp: tallies_def)
        then show ?thesis by (intro exI[of _ 4]) simp
      next
        case True
        with r3 have "tallies st' = (tallies st)[5 := tallies st ! 5 + 1]"
          by (simp add: persist_entry_one_tally)
        then show ?thesis by (intro exI[of _ 5]) simp
      qed
    qed
  qed
qed

lemma length_tallies [simp]: "length (tallies st) = 6"
  by (simp add: tallies_def)

lemma sum_list_update_Suc:
  "k < length xs \<Longrightarrow> sum_list (xs[k := xs ! k + 1]) = sum_list xs + (1::nat)"
  by (simp add: sum_list_update)

lemma import_lines_tallies:
  "import_lines lib allowed ce lines st = Inr st' \<Longrightarrow>
   sum_list (tallies st') = sum_list (tallies st) + length (filter (\<lambda>l. strip l \<noteq> []) lines)"
proof (induction lines arbitrary: st)
  case Nil
  then show ?case by simp
next
  case (Cons l ls)
  from Cons.prems obtain st1 where s1: "import_line lib allowed ce l st = Inr st1"
    and s2: "import_lines lib allowed ce ls st1 = Inr st'"
    by (auto simp: bindE_eq_Inr)
  show ?case
  proof (cases "strip l = []")
    case True
    with s1 have "st1 = st" by (simp add: import_line_blank)
    with Cons.IH[OF s2] True show ?thesis by simp
  next
    case False
    from import_line_one_tally[OF s1 False] obtain k where k: "k < 6"
      "tallies st1 = (tallies st)[k := tallies st ! k + 1]" by blast
    then have "sum_list (tallies st1) = sum_list (tallies st) + 1"
      using sum_list_update_Suc[of k "tallies st"] by simp
    with Cons.IH[OF s2] False show ?thesis by simp
  qed
qed

text \<open>
  Claim C3, as the code has it.  When \<open>import_jsonl\<close> runs to its end without raising,
  the five skip-reason counters and the count of accepted entries add up to the number of
  input lines that are not blank; and in every step of the loop that does not raise, a
  blank line changes nothing and a line that is not blank adds one to exactly one of the
  six tallies.  The claim as stated excludes only the errors of the store, and fails: the
  run also ends with an exception, the line counted by no skip reason, on a line whose
  JSON is not an object (\<open>[1]\<close>), on an entry whose \<open>pos\<close> is a number, on an exception of
  \<open>json.loads\<close> other than \<open>JSONDecodeError\<close>, and with a commit batch size of 0.
\<close>

theorem skip_accounting_complete:
  assumes "import_jsonl lib c lines allowed_pos commit_every = Inr st"
  shows "json_decode_error (skipped_reasons st) + non_grc (skipped_reasons st)
           + missing_pos (skipped_reasons st) + pos_not_allowed (skipped_reasons st)
           + missing_headword (skipped_reasons st) + inserted st
         = length (filter (\<lambda>line. strip line \<noteq> []) lines)
       \<and> (\<forall>line st0 st1.
             import_line lib allowed_pos commit_every line st0 = Inr st1 \<longrightarrow>
             (if strip line = [] then st1 = st0
              else \<exists>k<6. tallies st1 = (tallies st0)[k := tallies st0 ! k + 1]))"
proof -
  have "json_decode_error (skipped_reasons st) + non_grc (skipped_reasons st)
           + missing_pos (skipped_reasons st) + pos_not_allowed (skipped_reasons st)
           + missing_headword (skipped_reasons st) + inserted st
         = length (filter (\<lambda>line. strip line \<noteq> []) lines)"
    using import_lines_tallies[OF assms[unfolded import_jsonl_def]]
    by (simp add: tallies_def initial_state_def)
  moreover have "\<forall>line st0 st1.
             import_line lib allowed_pos commit_every line st0 = Inr st1 \<longrightarrow>
             (if strip line = [] then st1 = st0
              else \<exists>k<6. tallies st1 = (tallies st0)[k := tallies st0 ! k + 1])"
    using import_line_one_tally import_line_blank by (metis Inr_inject)
  ultimately show ?thesis by blast
qed

theorem skip_accounting_complete_witness:
  "\<exists>st. import_jsonl example_lib empty_conn example_lines {''noun''} 1000 = Inr st
       \<and> json_decode_error (skipped_reasons st) + non_grc (skipped_reasons st)
           + missing_pos (skipped_reasons st) + pos_not_allowed (skipped_reasons st)
           + missing_headword (skipped_reasons st) + inserted st = 4"
proof -
  obtain st where st: "import_jsonl example_lib empty_conn example_lines {''noun''} 1000 = Inr st"
    by (simp add: example_lines_def example_lib_def empty_conn_def model_defs)
  have "length (filter (\<lambda>line. strip line \<noteq> []) example_lines) = 4"
    by (simp add: example_lines_def)
  with skip_accounting_complete[OF st, THEN conjunct1] st show ?thesis by auto
qed

theorem uncounted_line_counterexample:
  "length (filter (\<lambda>line. strip line \<noteq> []) [''list-line'']) = 1
   \<and> loads example_lib (strip ''list-line'') = Inr (JList [JInt 1])
   \<and> import_jsonl example_lib empty_conn [''list-line''] {''noun''} 1000 = Inl AttributeError
   \<and> import_jsonl example_lib empty_conn [''numeric-pos-line''] {''noun''} 1000
       = Inl AttributeError
   \<and> import_jsonl example_lib empty_conn [''deep-line''] {''noun''} 1000 = Inl RecursionError
   \<and> import_jsonl example_lib empty_conn [''noun-line''] {''noun''} 0 = Inl ZeroDivisionError"
  by (simp add: example_lib_def empty_conn_def model_defs)

section \<open>Senses without glosses\<close>

text \<open>
  Claim C10.  For a sense whose \<open>glosses\<close> are missing or empty, \<open>extract_gloss\<close> returns
  the placeholder gloss \<open>?\<close> with no definition, and the loop over the senses inserts a
  row with that gloss and a NULL definition and goes on to the next sense: the sense is
  not skipped; and persisting an accepted entry, whatever its senses, tallies no skip
  reason.  (The metadata of the sense must be values that SQLite can bind; the row holds
  them as its \<open>TEXT\<close> columns store them.)
\<close>

theorem empty_glosses_get_placeholder:
  assumes "py_get sense ''glosses'' = Inr g" and "\<not> truthy g"
      and "extract_sense_metadata lib sense = Inr sense_metadata"
      and "mapE (\<lambda>kv. bindE (bind_param (snd kv)) (\<lambda>v. Inr (fst kv, v))) sense_metadata
             = Inr metadata"
  shows "extract_gloss sense = Inr (JStr ''?'', JNull)
       \<and> senses_loop lib lemma_id pos_id idx (sense # senses) c
           = senses_loop lib lemma_id pos_id (idx + 1) senses
               (c\<lparr>sense_tbl := sense_tbl c @
                    [\<lparr> s_id = next_id (map s_id (sense_tbl c)),
                       s_lemma_id = lemma_id, s_pos_id = pos_id,
                       s_gloss = SText ''?'', s_definition = SNull,
                       s_sense_order = idx,
                       s_metadata =
                         map (\<lambda>kv. (fst kv, text_affinity (snd kv))) metadata \<rparr>]\<rparr>)
       \<and> (\<forall>commit_every entry pos_code headword st st'.
             persist_entry lib commit_every entry pos_code headword st = Inr st' \<longrightarrow>
             skipped_reasons st' = skipped_reasons st)"
proof -
  have g: "extract_gloss sense = Inr (JStr ''?'', JNull)"
    using assms(1,2) by (simp add: extract_gloss_def or_empty_def)
  then show ?thesis
    using assms(3,4) persist_entry_tallies by (simp add: insert_sense_def text_affinity_def)
qed

theorem empty_glosses_get_placeholder_witness:
  "extract_gloss (JObj [(''glosses'', JList []), (''tags'', JList [JStr ''rare''])])
     = Inr (JStr ''?'', JNull)
   \<and> senses_loop example_lib 1 1 0 [JObj [(''glosses'', JList []), (''tags'', JList [JStr ''rare''])]]
       empty_conn
     = Inr (empty_conn\<lparr>sense_tbl :=
              [\<lparr> s_id = 1, s_lemma_id = 1, s_pos_id = 1, s_gloss = SText ''?'',
                 s_definition = SNull, s_sense_order = 0,
                 s_metadata =
                   [(''tags'', SText ''[]''), (''form_of'', SNull), (''alt_of'', SNull),
                    (''qualifier'', SNull), (''categories'', SNull), (''raw_glosses'', SNull),
                    (''raw_tags'', SNull), (''links'', SNull), (''topics'', SNull),
                    (''examples'', SNull), (''sense_extra'', SNull)] \<rparr>]\<rparr>)"
proof -
  let ?s = "JObj [(''glosses'', JList []), (''tags'', JList [JStr ''rare''])]"
  have 1: "py_get ?s ''glosses'' = Inr (JList [])" by (simp add: py_get_def)
  have 2: "\<not> truthy (JList [])" by simp
  have 3: "extract_sense_metadata example_lib ?s =
             Inr [(''tags'', JStr ''[]''), (''form_of'', JNull), (''alt_of'', JNull),
                  (''qualifier'', JNull), (''categories'', JNull), (''raw_glosses'', JNull),
                  (''raw_tags'', JNull), (''links'', JNull), (''topics'', JNull),
                  (''examples'', JNull), (''sense_extra'', JNull)]"
    by (simp add: extract_sense_metadata_def py_get_def dumps_or_none_def example_lib_def
          SENSE_EXTRA_KEYS_def)
  have 4: "mapE (\<lambda>kv. bindE (bind_param (snd kv)) (\<lambda>v. Inr (fst kv, v)))
             [(''tags'', JStr ''[]''), (''form_of'', JNull), (''alt_of'', JNull),
                  (''qualifier'', JNull), (''categories'', JNull), (''raw_glosses'', JNull),
                  (''raw_tags'', JNull), (''links'', JNull), (''topics'', JNull),
                  (''examples'', JNull), (''sense_extra'', JNull)]
           = Inr [(''tags'', PText ''[]''), (''form_of'', PNull), (''alt_of'', PNull),
                    (''qualifier'', PNull), (''categories'', PNull), (''raw_glosses'', PNull),
                    (''raw_tags'', PNull), (''links'', PNull), (''topics'', PNull),
                    (''examples'', PNull), (''sense_extra'', PNull)]"
    by simp
  note t = empty_glosses_get_placeholder[OF 1 2 3 4, where lemma_id = 1 and pos_id = 1
             and idx = 0 and senses = "[]" and c = empty_conn]
  show ?thesis
    using t by (simp add: empty_conn_def next_id_def text_affinity_def)
qed

section \<open>The allow-list and the code of an entry\<close>

lemma pos_items_loop_eq:
  "pos_items_loop result items =
     result \<union> {pos_alias (lower (strip item)) | item.
                 item \<in> set items \<and> lower (strip item) \<noteq> []}"
proof (induction items arbitrary: result)
  case Nil
  then show ?case by simp
next
  case (Cons a items)
  show ?case by (auto simp: Cons.IH Let_def)
qed

lemma parse_pos_list_adjective: "parse_pos_list ''adjective'' = {''adj''}"
  by (simp add: parse_pos_list_def pos_alias_def POS_ALIASES_def strip_def is_space_def
        lower_def lower_char_def)

text \<open>
  Claim C9, as the code has it.  \<open>parse_pos_list\<close> lower-cases and strips every item of
  the configured list, drops the empty ones and maps the rest through the aliases.  The
  code of an entry is only stripped: it is compared as it is, without lower-casing and
  without the aliases, with the parsed allow-list.  An entry of the target language whose
  stripped code is in the allow-list goes on to the headword test; any other is counted
  as \<open>pos_not_allowed\<close>.  So with the allow-list \<open>adjective\<close>, which is parsed to \<open>adj\<close>,
  an entry with the code \<open>adjective\<close> is skipped, and an entry with the code \<open>adj\<close> passes.
\<close>

theorem pos_filter_matches_verbatim:
  assumes "strip line \<noteq> []" and "loads lib (strip line) = Inr entry"
      and "py_get entry ''lang_code'' = Inr (JStr ''grc'')"
      and "py_get entry ''pos'' = Inr (JStr p)" and "strip p \<noteq> []"
  shows "parse_pos_list config =
           {pos_alias (lower (strip item)) | item.
              item \<in> set (split_on CHR '','' config) \<and> lower (strip item) \<noteq> []}
       \<and> import_line lib (parse_pos_list config) commit_every line st =
           (if strip p \<in> parse_pos_list config
            then bindE (py_get entry ''word'') (\<lambda>headword.
                   if \<not> truthy headword
                   then Inr (st\<lparr>skipped_reasons := (skipped_reasons st)
                                 \<lparr>missing_headword := missing_headword (skipped_reasons st) + 1\<rparr>\<rparr>)
                   else persist_entry lib commit_every entry (strip p) headword st)
            else Inr (st\<lparr> skipped_reasons := (skipped_reasons st)
                              \<lparr>pos_not_allowed := pos_not_allowed (skipped_reasons st) + 1\<rparr>,
                           skipped_pos_counts :=
                             (skipped_pos_counts st)(strip p \<mapsto>
                                (case skipped_pos_counts st (strip p) of
                                   None \<Rightarrow> 0 | Some n \<Rightarrow> n) + 1) \<rparr>))"
proof -
  have s: "p \<noteq> []" using assms(5) by (auto simp: strip_def)
  have a: "parse_pos_list config =
           {pos_alias (lower (strip item)) | item.
              item \<in> set (split_on CHR '','' config) \<and> lower (strip item) \<noteq> []}"
    by (simp add: parse_pos_list_def pos_items_loop_eq)
  show ?thesis
    apply (rule conjI[OF a])
    using assms s by (simp add: import_line_def Let_def)
qed

theorem pos_filter_matches_verbatim_witness:
  "import_line example_lib (parse_pos_list ''adjective'') 1000 ''adjective-line''
      (initial_state empty_conn)
    = Inr ((initial_state empty_conn)
             \<lparr> skipped_reasons := (skipped_reasons (initial_state empty_conn))\<lparr>pos_not_allowed := 1\<rparr>,
               skipped_pos_counts := [''adjective'' \<mapsto> 1] \<rparr>)
   \<and> ''adj'' \<in> parse_pos_list ''adjective''"
proof -
  have 1: "strip ''adjective-line'' \<noteq> []" by simp
  have 2: "loads example_lib (strip ''adjective-line'') = Inr adjective_entry"
    by (simp add: example_lib_def adjective_entry_def)
  have 3: "py_get adjective_entry ''lang_code'' = Inr (JStr ''grc'')"
    by (simp add: adjective_entry_def py_get_def)
  have 4: "py_get adjective_entry ''pos'' = Inr (JStr ''adjective'')"
    by (simp add: adjective_entry_def py_get_def)
  have 5: "strip ''adjective'' = ''adjective''" by (simp add: strip_def is_space_def)
  then have 6: "strip ''adjective'' \<noteq> []" by simp
  note t = pos_filter_matches_verbatim[OF 1 2 3 4 6, of "''adjective''" 1000
             "initial_state empty_conn", THEN conjunct2]
  show ?thesis
    using t by (simp add: 5 parse_pos_list_adjective initial_state_def)
qed

theorem pos_alias_entry_counterexample:
  "parse_pos_list ''adjective'' = {''adj''}
   \<and> loads example_lib ''adjective-line'' = Inr adjective_entry
   \<and> map_sum id tallies
       (import_jsonl example_lib empty_conn [''adjective-line''] (parse_pos_list ''adjective'') 1000)
     = Inr [0, 0, 0, 1, 0, 0]"
  by (simp add: parse_pos_list_adjective example_lib_def adjective_entry_def empty_conn_def
        import_jsonl_def initial_state_def import_line_def py_get_def tallies_def Let_def
        strip_def is_space_def)

section \<open>Schema evolution\<close>

lemma with_columns_Nil [simp]: "with_columns t [] = t"
  by (simp add: with_columns_def)

lemma with_columns_snoc:
  "with_columns (t\<lparr> t_columns := t_columns t @ [col],
                     t_rows := map (\<lambda>r. r @ [col_default col]) (t_rows t) \<rparr>) added
   = with_columns t (col # added)"
  by (simp add: with_columns_def)

lemma add_missing_skip_all:
  "\<forall>cd \<in> set columns. fst cd \<in> existing \<Longrightarrow>
   add_missing lib existing table columns db = Inr db"
  by (induction columns arbitrary: db) auto

lemma add_missing_adds:
  "db (ascii_lower table) = Some t \<Longrightarrow>
   list_all (\<lambda>cd. add_column_stmt lib (add_column_text table (fst cd) (snd cd))
                    = Inr \<lparr> ac_table = table, ac_column = declared_column cd \<rparr>)
     (filter (\<lambda>cd. fst cd \<notin> existing) columns) \<Longrightarrow>
   distinct (map ascii_lower (map col_name (t_columns t)
               @ map fst (filter (\<lambda>cd. fst cd \<notin> existing) columns))) \<Longrightarrow>
   length (t_columns t) + length (filter (\<lambda>cd. fst cd \<notin> existing) columns)
     \<le> max_column lib \<Longrightarrow>
   add_missing lib existing table columns db =
     Inr (db(ascii_lower table \<mapsto>
            with_columns t (map declared_column (filter (\<lambda>cd. fst cd \<notin> existing) columns))))"
proof (induction columns arbitrary: db t)
  case Nil
  then show ?case by (simp add: fun_upd_idem)
next
  case (Cons cd columns)
  obtain name col_def where cd: "cd = (name, col_def)" by (cases cd)
  show ?case
  proof (cases "name \<in> existing")
    case True
    then show ?thesis using Cons cd by simp
  next
    case False
    let ?col = "declared_column (name, col_def)"
    let ?t1 = "t\<lparr> t_columns := t_columns t @ [?col],
                   t_rows := map (\<lambda>r. r @ [col_default ?col]) (t_rows t) \<rparr>"
    have stmt: "add_column_stmt lib (add_column_text table name col_def)
                  = Inr \<lparr> ac_table = table, ac_column = ?col \<rparr>"
      using Cons.prems(2) False cd by simp
    have fresh: "ascii_lower (col_name ?col)
                   \<notin> set (map (\<lambda>col. ascii_lower (col_name col)) (t_columns t))"
      using Cons.prems(3) False cd by (auto simp: declared_column_def)
    have room: "\<not> max_column lib \<le> length (t_columns t)"
      using Cons.prems(4) False cd by simp
    have alt: "alter_add_column lib db table name col_def
                 = Inr (db(ascii_lower table \<mapsto> ?t1))"
      using Cons.prems(1) fresh room by (simp add: alter_add_column_def stmt)
    have p1: "list_all (\<lambda>cd. add_column_stmt lib (add_column_text table (fst cd) (snd cd))
                    = Inr \<lparr> ac_table = table, ac_column = declared_column cd \<rparr>)
               (filter (\<lambda>cd. fst cd \<notin> existing) columns)"
      using Cons.prems(2) False cd by simp
    have d1: "distinct (map ascii_lower (map col_name (t_columns ?t1)
                @ map fst (filter (\<lambda>cd. fst cd \<notin> existing) columns)))"
      using Cons.prems(3) False cd by (auto simp: declared_column_def)
    have r1: "length (t_columns ?t1) + length (filter (\<lambda>cd. fst cd \<notin> existing) columns)
                \<le> max_column lib"
      using Cons.prems(4) False cd by simp
    have "add_missing lib existing table columns (db(ascii_lower table \<mapsto> ?t1)) =
            Inr ((db(ascii_lower table \<mapsto> ?t1))(ascii_lower table \<mapsto>
                   with_columns ?t1
                     (map declared_column (filter (\<lambda>cd. fst cd \<notin> existing) columns))))"
      by (rule Cons.IH[OF _ p1 d1 r1]) simp
    then show ?thesis
      using False cd alt by (auto simp: with_columns_snoc fun_upd_def)
  qed
qed

lemma table_info_as_written:
  "table_info_stmt lib (table_info_text table) = Inr table \<Longrightarrow>
   table_info lib db table = Inr (column_names db table)"
  by (simp add: table_info_def)

lemma alter_add_column_frame:
  assumes "alter_add_column lib db table name col_def = Inr db'"
      and "add_column_stmt lib (add_column_text table name col_def)
             = Inr \<lparr> ac_table = table, ac_column = declared_column (name, col_def) \<rparr>"
  shows "column_names db' table = column_names db table @ [name]"
    and "u \<noteq> ascii_lower table \<Longrightarrow> db' u = db u"
  using assms
  by (auto simp: alter_add_column_def declared_column_def column_names_def
        split: option.splits if_splits)

lemma add_missing_frame:
  "add_missing lib existing table columns db = Inr db' \<Longrightarrow>
   list_all (\<lambda>cd. add_column_stmt lib (add_column_text table (fst cd) (snd cd))
                    = Inr \<lparr> ac_table = table, ac_column = declared_column cd \<rparr>) columns \<Longrightarrow>
   (\<forall>u. u \<noteq> ascii_lower table \<longrightarrow> db' u = db u)
   \<and> set (column_names db table) \<subseteq> set (column_names db' table)
   \<and> (\<forall>cd \<in> set columns. fst cd \<notin> existing \<longrightarrow> fst cd \<in> set (column_names db' table))"
proof (induction columns arbitrary: db)
  case Nil
  then show ?case by simp
next
  case (Cons cd columns)
  obtain name col_def where cd: "cd = (name, col_def)" by (cases cd)
  have rest: "list_all (\<lambda>cd. add_column_stmt lib (add_column_text table (fst cd) (snd cd))
                    = Inr \<lparr> ac_table = table, ac_column = declared_column cd \<rparr>) columns"
    using Cons.prems(2) by simp
  show ?case
  proof (cases "name \<in> existing")
    case True
    with Cons.prems(1) cd have "add_missing lib existing table columns db = Inr db'" by simp
    from Cons.IH[OF this rest] True cd show ?thesis by simp
  next
    case False
    with Cons.prems(1) cd obtain db1 where
      1: "alter_add_column lib db table name col_def = Inr db1"
      and 2: "add_missing lib existing table columns db1 = Inr db'"
      by (auto simp: bindE_eq_Inr)
    have stmt: "add_column_stmt lib (add_column_text table name col_def)
                  = Inr \<lparr> ac_table = table, ac_column = declared_column (name, col_def) \<rparr>"
      using Cons.prems(2) cd by simp
    note f = alter_add_column_frame[OF 1 stmt] and ih = Cons.IH[OF 2 rest]
    have "name \<in> set (column_names db' table)"
      using f(1) ih by auto
    then show ?thesis using f ih cd by auto
  qed
qed

lemma ensure_columns_frame:
  assumes "ensure_columns lib db table columns = Inr db'"
      and "reads_as_written lib table columns"
  shows "\<forall>u. u \<noteq> ascii_lower table \<longrightarrow> db' u = db u"
    and "\<forall>cd \<in> set columns. fst cd \<in> set (column_names db' table)"
proof -
  from assms(2) have p: "table_info_stmt lib (table_info_text table) = Inr table"
    and q: "list_all (\<lambda>cd. add_column_stmt lib (add_column_text table (fst cd) (snd cd))
                    = Inr \<lparr> ac_table = table, ac_column = declared_column cd \<rparr>) columns"
    by (simp_all add: reads_as_written_def)
  from assms(1) have
    "add_missing lib (set (column_names db table)) table columns db = Inr db'"
    by (simp add: ensure_columns_def table_info_as_written[OF p])
  from add_missing_frame[OF this q]
  show "\<forall>u. u \<noteq> ascii_lower table \<longrightarrow> db' u = db u"
    and "\<forall>cd \<in> set columns. fst cd \<in> set (column_names db' table)"
    by auto
qed

lemma ensure_columns_present:
  "table_info_stmt lib (table_info_text table) = Inr table \<Longrightarrow>
   \<forall>cd \<in> set columns. fst cd \<in> set (column_names db table) \<Longrightarrow>
   ensure_columns lib db table columns = Inr db"
  by (simp add: ensure_columns_def table_info_as_written add_missing_skip_all)

lemma ascii_lower_tables [simp]:
  "ascii_lower ''lemma'' = ''lemma''" "ascii_lower ''sense'' = ''sense''"
  "ascii_lower ''form'' = ''form''"
  by (simp_all add: ascii_lower_def)

lemma ensure_schema_columns_idempotent:
  assumes "ensure_schema_columns lib db = Inr db'"
      and l: "reads_as_written lib ''lemma'' LEMMA_EXTRA_COLUMNS"
      and s: "reads_as_written lib ''sense'' SENSE_EXTRA_COLUMNS"
      and f: "reads_as_written lib ''form'' FORM_EXTRA_COLUMNS"
  shows "ensure_schema_columns lib db' = Inr db'"
proof -
  from assms(1) obtain db1 db2 where
    1: "ensure_columns lib db ''lemma'' LEMMA_EXTRA_COLUMNS = Inr db1"
    and 2: "ensure_columns lib db1 ''sense'' SENSE_EXTRA_COLUMNS = Inr db2"
    and 3: "ensure_columns lib db2 ''form'' FORM_EXTRA_COLUMNS = Inr db'"
    by (auto simp: ensure_schema_columns_def bindE_eq_Inr)
  note f1 = ensure_columns_frame[OF 1 l] and f2 = ensure_columns_frame[OF 2 s]
    and f3 = ensure_columns_frame[OF 3 f]
  have "db' ''lemma'' = db1 ''lemma''" using f2(1) f3(1) by simp
  then have a: "ensure_columns lib db' ''lemma'' LEMMA_EXTRA_COLUMNS = Inr db'"
    using f1(2) l
    by (intro ensure_columns_present) (simp_all add: reads_as_written_def column_names_def)
  have "db' ''sense'' = db2 ''sense''" using f3(1) by simp
  then have b: "ensure_columns lib db' ''sense'' SENSE_EXTRA_COLUMNS = Inr db'"
    using f2(2) s
    by (intro ensure_columns_present) (simp_all add: reads_as_written_def column_names_def)
  have c: "ensure_columns lib db' ''form'' FORM_EXTRA_COLUMNS = Inr db'"
    using f3(2) f by (intro ensure_columns_present) (simp_all add: reads_as_written_def)
  show ?thesis using a b c by (simp add: ensure_schema_columns_def)
qed

text \<open>
  Claim C6, as the code has it.  Let the table exist, let SQLite read the statements for
  the declared columns that the table does not have as they are meant (the names and the
  types are spliced into the text of the statements), let the names of the table's
  columns and of those missing columns all differ, also when the case of the letters is
  disregarded, and let the table have room for them.  Then \<open>ensure_columns\<close> succeeds; it
  appends exactly the declared columns that the table does not have, in their declared
  order, with their declared types and NULL the default, every row reading NULL in them;
  it leaves the columns the table had, the values of its rows and every other table as
  they were; and a second run on the result adds and changes nothing.  Likewise, when
  SQLite reads the statements for the three dictionaries of the source as they are meant,
  a run of \<open>ensure_schema_columns\<close> on the result of a run that succeeded changes nothing.
  The claim as stated, for every table and every declared set, fails: when the table has
  a column \<open>Related\<close> and \<open>related\<close> is declared, the set of existing names does not
  contain \<open>related\<close>, the \<open>ALTER TABLE\<close> is run, and SQLite refuses the duplicate name.
\<close>

theorem ensure_columns_additive_idempotent:
  assumes "db (ascii_lower table) = Some t"
      and "reads_as_written lib table (missing_columns t columns)"
      and "distinct (map ascii_lower (map col_name (t_columns t)
                       @ map fst (missing_columns t columns)))"
      and "length (t_columns t) + length (missing_columns t columns) \<le> max_column lib"
  shows "ensure_columns lib db table columns
           = Inr (db(ascii_lower table \<mapsto>
                    with_columns t (map declared_column (missing_columns t columns))))
       \<and> ensure_columns lib
           (db(ascii_lower table \<mapsto>
                 with_columns t (map declared_column (missing_columns t columns))))
           table columns
           = Inr (db(ascii_lower table \<mapsto>
                    with_columns t (map declared_column (missing_columns t columns))))
       \<and> (\<forall>db0 db1.
             reads_as_written lib ''lemma'' LEMMA_EXTRA_COLUMNS \<longrightarrow>
             reads_as_written lib ''sense'' SENSE_EXTRA_COLUMNS \<longrightarrow>
             reads_as_written lib ''form'' FORM_EXTRA_COLUMNS \<longrightarrow>
             ensure_schema_columns lib db0 = Inr db1 \<longrightarrow>
             ensure_schema_columns lib db1 = Inr db1)"
proof -
  let ?db' = "db(ascii_lower table \<mapsto>
                  with_columns t (map declared_column (missing_columns t columns)))"
  from assms(2) have p: "table_info_stmt lib (table_info_text table) = Inr table"
    and q: "list_all (\<lambda>cd. add_column_stmt lib (add_column_text table (fst cd) (snd cd))
                    = Inr \<lparr> ac_table = table, ac_column = declared_column cd \<rparr>)
              (missing_columns t columns)"
    by (simp_all add: reads_as_written_def)
  have 1: "ensure_columns lib db table columns = Inr ?db'"
    using assms(1,3,4) q
      add_missing_adds[of db table t lib "set (map col_name (t_columns t))" columns]
    by (simp add: ensure_columns_def table_info_as_written[OF p] missing_columns_def
          column_names_def)
  have "\<forall>cd \<in> set columns. fst cd \<in> set (column_names ?db' table)"
    by (auto simp: column_names_def with_columns_def missing_columns_def declared_column_def
          image_iff)
  then have 2: "ensure_columns lib ?db' table columns = Inr ?db'"
    by (rule ensure_columns_present[OF p])
  from 1 2 ensure_schema_columns_idempotent show ?thesis by blast
qed

theorem ensure_columns_additive_idempotent_witness:
  "ensure_columns example_lib [''lemma'' \<mapsto> example_table ''related''] ''lemma''
       example_columns
     = Inr [''lemma'' \<mapsto>
             \<lparr> t_columns =
                 [\<lparr> col_name = ''id'', col_type = ''INTEGER'', col_default = SNull \<rparr>,
                  \<lparr> col_name = ''headword'', col_type = ''TEXT'', col_default = SNull \<rparr>,
                  \<lparr> col_name = ''related'', col_type = ''TEXT'', col_default = SNull \<rparr>,
                  \<lparr> col_name = ''etymology_text'', col_type = ''TEXT'',
                    col_default = SNull \<rparr>],
               t_rows = [[SInt 1, SText ''logos'', SNull, SNull]] \<rparr>]
   \<and> ensure_columns example_lib
         [''lemma'' \<mapsto>
             \<lparr> t_columns =
                 [\<lparr> col_name = ''id'', col_type = ''INTEGER'', col_default = SNull \<rparr>,
                  \<lparr> col_name = ''headword'', col_type = ''TEXT'', col_default = SNull \<rparr>,
                  \<lparr> col_name = ''related'', col_type = ''TEXT'', col_default = SNull \<rparr>,
                  \<lparr> col_name = ''etymology_text'', col_type = ''TEXT'',
                    col_default = SNull \<rparr>],
               t_rows = [[SInt 1, SText ''logos'', SNull, SNull]] \<rparr>]
         ''lemma'' example_columns
     = Inr [''lemma'' \<mapsto>
             \<lparr> t_columns =
                 [\<lparr> col_name = ''id'', col_type = ''INTEGER'', col_default = SNull \<rparr>,
                  \<lparr> col_name = ''headword'', col_type = ''TEXT'', col_default = SNull \<rparr>,
                  \<lparr> col_name = ''related'', col_type = ''TEXT'', col_default = SNull \<rparr>,
                  \<lparr> col_name = ''etymology_text'', col_type = ''TEXT'',
                    col_default = SNull \<rparr>],
               t_rows = [[SInt 1, SText ''logos'', SNull, SNull]] \<rparr>]"
proof -
  have m: "missing_columns (example_table ''related'') example_columns
             = [(''etymology_text'', ''TEXT'')]"
    by (simp add: missing_columns_def example_table_def example_columns_def)
  have 1: "[''lemma'' \<mapsto> example_table ''related''] (ascii_lower ''lemma'')
             = Some (example_table ''related'')"
    by simp
  have 2: "reads_as_written example_lib ''lemma''
             (missing_columns (example_table ''related'') example_columns)"
    by (simp add: m) (simp add: reads_as_written_def example_lib_def table_info_text_def
          add_column_text_def declared_column_def)
  have 3: "distinct (map ascii_lower (map col_name (t_columns (example_table ''related''))
              @ map fst (missing_columns (example_table ''related'') example_columns)))"
    by (simp add: m) (simp add: example_table_def ascii_lower_def)
  have 4: "length (t_columns (example_table ''related''))
             + length (missing_columns (example_table ''related'') example_columns)
           \<le> max_column example_lib"
    by (simp add: m) (simp add: example_table_def example_lib_def)
  show ?thesis
    using ensure_columns_additive_idempotent
            [where db = "[''lemma'' \<mapsto> example_table ''related'']" and table = "''lemma''"
               and t = "example_table ''related''" and lib = example_lib
               and columns = example_columns, OF 1 2 3 4, unfolded m]
    by (simp add: with_columns_def example_table_def declared_column_def)
qed

theorem column_case_clash_counterexample:
  "[''lemma'' \<mapsto> example_table ''Related''] (ascii_lower ''lemma'')
     = Some (example_table ''Related'')
   \<and> missing_columns (example_table ''Related'') example_columns = example_columns
   \<and> reads_as_written example_lib ''lemma'' example_columns
   \<and> ensure_columns example_lib [''lemma'' \<mapsto> example_table ''Related''] ''lemma''
         example_columns
       = Inl OperationalError"
  by (simp add: missing_columns_def example_table_def example_columns_def
        reads_as_written_def example_lib_def table_info_text_def add_column_text_def
        declared_column_def ensure_columns_def table_info_def column_names_def
        alter_add_column_def ascii_lower_def lower_char_def)

section \<open>The governed-case heuristic\<close>

lemma add_case_canonical:
  "add_case cases raw =
     (case canonical_case raw of
        None \<Rightarrow> cases
      | Some c \<Rightarrow> if c \<in> set cases then cases else cases @ [c])"
  by (simp add: add_case_def canonical_case_def case_mapping_def Let_def)

lemma first_seen_snoc:
  "first_seen (xs @ [x]) = (if x \<in> set xs then first_seen xs else first_seen xs @ [x])"
  by (simp add: first_seen_def)

lemma set_first_seen [simp]: "set (first_seen xs) = set xs"
  by (simp add: first_seen_def)

lemma map_filter_snoc:
  "List.map_filter f (xs @ [x]) =
     List.map_filter f xs @ (case f x of None \<Rightarrow> [] | Some y \<Rightarrow> [y])"
  by (simp add: List.map_filter_def split: option.splits)

lemma foldl_add_case_first_seen:
  "foldl add_case [] hints = first_seen (List.map_filter canonical_case hints)"
proof (induction hints rule: rev_induct)
  case Nil
  then show ?case by (simp add: first_seen_def List.map_filter_def)
next
  case (snoc h hints)
  show ?case
  proof (cases "canonical_case h")
    case None
    then show ?thesis using snoc by (simp add: add_case_canonical map_filter_snoc)
  next
    case (Some c)
    then show ?thesis
      using snoc by (simp add: add_case_canonical map_filter_snoc first_seen_snoc)
  qed
qed

lemma tags_case_loop_foldl:
  "tags_case_loop lib cases tags =
     foldl add_case cases
       (map (remove_all ''with-'')
          (filter (\<lambda>t. startswith t ''with-'') (map (\<lambda>tag. lower (py_str lib tag)) tags)))"
  by (induction tags arbitrary: cases) (simp_all add: Let_def)

lemma parts_case_loop_foldl: "parts_case_loop cases parts = foldl add_case cases parts"
  by (induction parts arbitrary: cases) simp_all

lemma split_on_replace:
  "split_on CHR ''/'' (replace_char CHR '','' CHR ''/'' (replace_char CHR '';'' CHR ''/'' s))
     = split_where (\<lambda>c. c = CHR ''/'' \<or> c = CHR '','' \<or> c = CHR '';'') s"
  by (induction s) (auto simp: replace_char_def split: list.splits)

lemma is_obj_get: "is_obj d \<Longrightarrow> py_get d k = Inr (get_field d k)"
  by (cases d) (simp_all add: is_obj_def get_field_def py_get_def)

lemma iterable_iter: "iterable v \<Longrightarrow> py_iter (or_empty v) = Inr (elements v)"
  by (simp add: iterable_def elements_def split: sum.splits)

lemma senses_case_loop_foldl:
  "list_all (\<lambda>sense. is_obj sense \<and> iterable (get_field sense ''tags'')) senses \<Longrightarrow>
   senses_case_loop lib cases senses =
     Inr (foldl add_case cases
            (concat (map (\<lambda>sense.
                map (remove_all ''with-'')
                  (filter (\<lambda>t. startswith t ''with-'')
                     (map (\<lambda>tag. lower (py_str lib tag)) (elements (get_field sense ''tags'')))))
             senses)))"
  by (induction senses arbitrary: cases)
     (simp_all add: is_obj_get iterable_iter tags_case_loop_foldl)

lemma heads_case_loop_foldl:
  "list_all (\<lambda>head. is_obj head \<and> is_obj (or_dict (get_field head ''args''))) heads \<Longrightarrow>
   heads_case_loop cases heads =
     Inr (foldl add_case cases
            (concat (map (\<lambda>head.
                case get_field (or_dict (get_field head ''args'')) ''2'' of
                  JStr s \<Rightarrow> split_where (\<lambda>c. c = CHR ''/'' \<or> c = CHR '','' \<or> c = CHR '';'') s
                | _ \<Rightarrow> [])
             heads)))"
proof (induction heads arbitrary: cases)
  case Nil
  then show ?case by simp
next
  case (Cons head heads)
  then show ?case
    by (cases "get_field (or_dict (get_field head ''args'')) ''2''")
       (simp_all add: is_obj_get parts_case_loop_foldl split_on_replace Let_def)
qed

lemma is_space_lower_char [simp]: "is_space (lower_char c) = is_space c"
proof (cases c)
  case (Char b0 b1 b2 b3 b4 b5 b6 b7)
  show ?thesis
    unfolding Char
    by (cases b0; cases b1; cases b2; cases b3; cases b4; cases b5; cases b6; cases b7;
        simp add: is_space_def lower_char_def)
qed

lemma lower_char_idem [simp]: "lower_char (lower_char c) = lower_char c"
proof (cases c)
  case (Char b0 b1 b2 b3 b4 b5 b6 b7)
  show ?thesis
    unfolding Char
    by (cases b0; cases b1; cases b2; cases b3; cases b4; cases b5; cases b6; cases b7;
        simp add: lower_char_def)
qed

lemma dropWhile_lower: "dropWhile is_space (map lower_char s) = map lower_char (dropWhile is_space s)"
  by (induction s) simp_all

lemma strip_lower: "strip (lower s) = lower (strip s)"
  by (simp add: strip_def lower_def rev_map dropWhile_lower)

lemma lower_lower [simp]: "lower (lower s) = lower s"
  by (simp add: lower_def)

lemma canonical_case_lower: "canonical_case (lower raw) = canonical_case raw"
  by (simp add: canonical_case_def strip_lower)

lemma remove_all_absent: "\<not> contains s old \<Longrightarrow> remove_all old s = s"
  by (induction s) auto

lemma remove_all_prefix:
  "old \<noteq> [] \<Longrightarrow> startswith s old \<Longrightarrow> remove_all old s = remove_all old (drop (length old) s)"
  by (cases s; cases old) (auto simp: startswith_def)

lemma lower_with: "lower ''with-'' = ''with-''"
  by (simp add: lower_def lower_char_def)

lemma startswith_lower: "startswith t ''with-'' \<Longrightarrow> startswith (lower t) ''with-''"
proof -
  assume a: "startswith t ''with-''"
  have "take (length ''with-'') (lower t) = lower (take (length ''with-'') t)"
    by (simp only: lower_def take_map)
  also have "\<dots> = lower ''with-''" using a by (simp only: startswith_def)
  finally show ?thesis by (simp only: startswith_def lower_with)
qed

lemma drop_lower: "drop n (lower s) = lower (drop n s)"
  by (simp add: lower_def drop_map)

lemma with_hint_agrees:
  assumes "prefix_only s" and "startswith (lower s) ''with-''"
  shows "startswith s ''with-''"
    and "canonical_case (remove_all ''with-'' (lower s)) = canonical_case (drop (length ''with-'') s)"
proof -
  from assms show p: "startswith s ''with-''" by (simp add: prefix_only_def)
  from assms have n: "\<not> contains (drop (length ''with-'') (lower s)) ''with-''"
    by (simp add: prefix_only_def)
  have "remove_all ''with-'' (lower s) = remove_all ''with-'' (drop (length ''with-'') (lower s))"
    by (rule remove_all_prefix[OF _ assms(2)]) simp
  also have "\<dots> = drop (length ''with-'') (lower s)" by (rule remove_all_absent[OF n])
  also have "\<dots> = lower (drop (length ''with-'') s)" by (rule drop_lower)
  finally show "canonical_case (remove_all ''with-'' (lower s)) = canonical_case (drop (length ''with-'') s)"
    by (simp only: canonical_case_lower)
qed

lemma tag_hints_agree:
  "list_all (\<lambda>tag. prefix_only (py_str lib tag)) tags \<Longrightarrow>
   List.map_filter canonical_case
     (map (remove_all ''with-'')
        (filter (\<lambda>t. startswith t ''with-'') (map (\<lambda>tag. lower (py_str lib tag)) tags)))
   = List.map_filter canonical_case
       (map (drop (length ''with-''))
          (filter (\<lambda>t. take (length ''with-'') t = ''with-'') (map (py_str lib) tags)))"
proof (induction tags)
  case Nil
  then show ?case by simp
next
  case (Cons tag tags)
  then have p: "prefix_only (py_str lib tag)" and
    ih: "List.map_filter canonical_case
     (map (remove_all ''with-'')
        (filter (\<lambda>t. startswith t ''with-'') (map (\<lambda>tag. lower (py_str lib tag)) tags)))
   = List.map_filter canonical_case
       (map (drop (length ''with-''))
          (filter (\<lambda>t. take (length ''with-'') t = ''with-'') (map (py_str lib) tags)))"
    by simp_all
  show ?case
  proof (cases "startswith (lower (py_str lib tag)) ''with-''")
    case True
    note a = with_hint_agrees[OF p True]
    from a(1) have t: "take (length ''with-'') (py_str lib tag) = ''with-''"
      by (simp add: startswith_def)
    show ?thesis
      using True t a(2)
      by (simp add: List.map_filter_simps ih del: length_Cons list.size split: option.splits)
  next
    case False
    then have "\<not> startswith (py_str lib tag) ''with-''" using startswith_lower by blast
    then have t: "take (length ''with-'') (py_str lib tag) \<noteq> ''with-''"
      by (simp add: startswith_def)
    show ?thesis using False t ih by simp
  qed
qed

lemma map_filter_append:
  "List.map_filter f (xs @ ys) = List.map_filter f xs @ List.map_filter f ys"
  by (simp add: List.map_filter_def)

lemma sense_hints_agree:
  "list_all (\<lambda>sense. list_all (\<lambda>tag. prefix_only (py_str lib tag))
                         (elements (get_field sense ''tags''))) senses \<Longrightarrow>
   List.map_filter canonical_case
     (concat (map (\<lambda>sense.
                map (remove_all ''with-'')
                  (filter (\<lambda>t. startswith t ''with-'')
                     (map (\<lambda>tag. lower (py_str lib tag)) (elements (get_field sense ''tags'')))))
             senses))
   = List.map_filter canonical_case
       (concat (map (\<lambda>sense.
                map (drop (length ''with-''))
                  (filter (\<lambda>t. take (length ''with-'') t = ''with-'')
                     (map (py_str lib) (elements (get_field sense ''tags'')))))
             senses))"
proof (induction senses)
  case Nil
  then show ?case by simp
next
  case (Cons sense senses)
  then have a: "list_all (\<lambda>tag. prefix_only (py_str lib tag)) (elements (get_field sense ''tags''))"
    and b: "list_all (\<lambda>sense. list_all (\<lambda>tag. prefix_only (py_str lib tag))
                         (elements (get_field sense ''tags''))) senses"
    by simp_all
  show ?case
    using tag_hints_agree[OF a] Cons.IH[OF b]
    by (simp only: list.map concat.simps map_filter_append)
qed

text \<open>
  Claim C8, as the code has it.  On an entry it can read and whose sense tags show
  nothing but the prefix (\<open>plain_sense_tags\<close>), \<open>extract_governs_case\<close> returns what the
  specification describes: the case hints are what follows the prefix \<open>with-\<close> in the
  sense tags that begin with it, followed by the pieces of the second positional
  argument of each head template, split at \<open>/\<close>, \<open>,\<close> and \<open>;\<close>; each hint is mapped to its
  case (\<open>gen\<close> and \<open>genitive\<close> to genitive, \<open>dat\<close> and \<open>dative\<close> to dative, \<open>acc\<close> and
  \<open>accusative\<close> to accusative, surrounding blanks and the case of the letters
  disregarded) and dropped when it has none; the cases are listed without repetition in
  the order of their first occurrence; the result is that list joined with \<open>/\<close>, or
  nothing when the list is empty.  The claim as stated, for every entry, fails: the code
  puts a sense tag in lower case before it looks for the prefix and then removes every
  occurrence of \<open>with-\<close>, not the prefix alone, so the tag \<open>with-with-gen\<close> gives the
  genitive although what follows its prefix, \<open>with-gen\<close>, names no case, and the tag
  \<open>With-dative\<close>, which does not begin with \<open>with-\<close>, gives the dative.
\<close>

theorem extract_governs_case_refines_spec:
  assumes "well_formed_entry entry" and "plain_sense_tags lib entry"
  shows "extract_governs_case lib entry = Inr (governs_case_spec lib entry)"
proof -
  from assms(1) have e: "is_obj entry"
    and s: "iterable (get_field entry ''senses'')"
    and ss: "list_all (\<lambda>sense. is_obj sense \<and> iterable (get_field sense ''tags''))
               (elements (get_field entry ''senses''))"
    and h: "iterable (get_field entry ''head_templates'')"
    and hs: "list_all (\<lambda>head. is_obj head \<and> is_obj (or_dict (get_field head ''args'')))
               (elements (get_field entry ''head_templates''))"
    by (simp_all add: well_formed_entry_def)
  have ts: "list_all (\<lambda>sense. list_all (\<lambda>tag. prefix_only (py_str lib tag))
                                  (elements (get_field sense ''tags'')))
              (elements (get_field entry ''senses''))"
    using assms(2) by (simp only: plain_sense_tags_def)
  let ?code_hints =
    "concat (map (\<lambda>sense.
                map (remove_all ''with-'')
                  (filter (\<lambda>t. startswith t ''with-'')
                     (map (\<lambda>tag. lower (py_str lib tag)) (elements (get_field sense ''tags'')))))
             (elements (get_field entry ''senses'')))"
  have "extract_governs_case lib entry =
          (let cases = foldl add_case [] (?code_hints @ head_case_hints entry)
           in if cases = [] then Inr None else Inr (Some (join ''/'' cases)))"
    unfolding extract_governs_case_def
    by (simp add: is_obj_get[OF e] iterable_iter[OF s] iterable_iter[OF h]
          senses_case_loop_foldl[OF ss] heads_case_loop_foldl[OF hs]
          head_case_hints_def Let_def)
  moreover have "foldl add_case [] (?code_hints @ head_case_hints entry)
                 = first_seen (List.map_filter canonical_case
                     (?code_hints @ head_case_hints entry))"
    by (simp only: foldl_add_case_first_seen)
  moreover have "List.map_filter canonical_case ?code_hints
                 = List.map_filter canonical_case (sense_case_hints lib entry)"
    unfolding sense_case_hints_def by (rule sense_hints_agree[OF ts])
  ultimately show ?thesis
    by (simp only: governs_case_spec_def map_filter_append Let_def)
       (simp split: if_splits)
qed

lemma wf_preposition_entry: "well_formed_entry preposition_entry"
  by (simp add: well_formed_entry_def preposition_entry_def is_obj_def iterable_def
        get_field_def elements_def py_get_def or_empty_def or_dict_def)

lemma plain_preposition_entry: "plain_sense_tags example_lib preposition_entry"
  by (simp add: plain_sense_tags_def prefix_only_def preposition_entry_def get_field_def
        elements_def py_get_def or_empty_def py_str_def startswith_def lower_def
        lower_char_def)

theorem extract_governs_case_refines_spec_witness:
  "well_formed_entry preposition_entry \<and> plain_sense_tags example_lib preposition_entry
   \<and> sense_case_hints example_lib preposition_entry = [''genitive'', ''Dat'']
   \<and> head_case_hints preposition_entry = [''ACC'', '' foo'', ''acc'', ''dat'']
   \<and> governs_case_spec example_lib preposition_entry = Some ''genitive/dative/accusative''
   \<and> extract_governs_case example_lib preposition_entry
       = Inr (Some ''genitive/dative/accusative'')"
proof -
  have s: "sense_case_hints example_lib preposition_entry = [''genitive'', ''Dat'']"
    by (simp add: sense_case_hints_def preposition_entry_def get_field_def elements_def
          py_get_def or_empty_def py_str_def)
  have h: "head_case_hints preposition_entry = [''ACC'', '' foo'', ''acc'', ''dat'']"
    by (simp add: head_case_hints_def preposition_entry_def get_field_def elements_def
          py_get_def or_empty_def or_dict_def)
  have g: "governs_case_spec example_lib preposition_entry = Some ''genitive/dative/accusative''"
    by (simp add: governs_case_spec_def s h canonical_case_def first_seen_def
          List.map_filter_def strip_def is_space_def lower_def lower_char_def Let_def)
  show ?thesis
    using extract_governs_case_refines_spec[OF wf_preposition_entry plain_preposition_entry]
          wf_preposition_entry plain_preposition_entry s h g
    by simp
qed

theorem repeated_prefix_counterexample:
  "well_formed_entry (sense_tags_entry ''with-with-gen'')
   \<and> sense_case_hints example_lib (sense_tags_entry ''with-with-gen'') = [''with-gen'']
   \<and> governs_case_spec example_lib (sense_tags_entry ''with-with-gen'') = None
   \<and> extract_governs_case example_lib (sense_tags_entry ''with-with-gen'')
       = Inr (Some ''genitive'')
   \<and> well_formed_entry (sense_tags_entry ''With-dative'')
   \<and> sense_case_hints example_lib (sense_tags_entry ''With-dative'') = []
   \<and> governs_case_spec example_lib (sense_tags_entry ''With-dative'') = None
   \<and> extract_governs_case example_lib (sense_tags_entry ''With-dative'')
       = Inr (Some ''dative'')"
proof -
  have w: "well_formed_entry (sense_tags_entry ''with-with-gen'')"
    "well_formed_entry (sense_tags_entry ''With-dative'')"
    by (simp_all add: well_formed_entry_def sense_tags_entry_def is_obj_def iterable_def
          get_field_def elements_def py_get_def or_empty_def or_dict_def)
  have s: "sense_case_hints example_lib (sense_tags_entry ''with-with-gen'') = [''with-gen'']"
    "sense_case_hints example_lib (sense_tags_entry ''With-dative'') = []"
    by (simp_all add: sense_case_hints_def sense_tags_entry_def get_field_def elements_def
          py_get_def or_empty_def py_str_def)
  have h: "head_case_hints (sense_tags_entry ''with-with-gen'') = []"
    "head_case_hints (sense_tags_entry ''With-dative'') = []"
    by (simp_all add: head_case_hints_def sense_tags_entry_def get_field_def elements_def
          py_get_def or_empty_def)
  have g: "governs_case_spec example_lib (sense_tags_entry ''with-with-gen'') = None"
    "governs_case_spec example_lib (sense_tags_entry ''With-dative'') = None"
    by (simp_all add: governs_case_spec_def s h canonical_case_def first_seen_def
          List.map_filter_def strip_def is_space_def lower_def lower_char_def Let_def)
  have c: "extract_governs_case example_lib (sense_tags_entry ''with-with-gen'')
             = Inr (Some ''genitive'')"
    "extract_governs_case example_lib (sense_tags_entry ''With-dative'') = Inr (Some ''dative'')"
    by (simp_all add: extract_governs_case_def sense_tags_entry_def py_get_def or_empty_def
          py_str_def startswith_def add_case_def case_mapping_def strip_def is_space_def
          lower_def lower_char_def Let_def)
  from w s g c show ?thesis by simp
qed

section \<open>Importing the same stream twice\<close>

lemma find_SomeD: "find P xs = Some x \<Longrightarrow> x \<in> set xs \<and> P x"
  by (induction xs) (auto split: if_splits)

lemma find_NoneD: "find P xs = None \<Longrightarrow> x \<in> set xs \<Longrightarrow> \<not> P x"
  by (induction xs) (auto split: if_splits)

lemma ensure_pos_frame:
  assumes "ensure_pos c code cache = (c', cache', i)"
  shows "lemma_tbl c' = lemma_tbl c" "lemma_pos_tbl c' = lemma_pos_tbl c"
        "sense_tbl c' = sense_tbl c" "dialect_tbl c' = dialect_tbl c" "form_tbl c' = form_tbl c"
        "pos_codes c \<subseteq> pos_codes c'"
  using assms
  by (auto simp: ensure_pos_def pos_codes_def Let_def split: option.splits)

lemma ensure_pos_present:
  assumes "ensure_pos c code cache = (c', cache', i)" and "code \<in> pos_codes c"
  shows "pos_tbl c' = pos_tbl c"
  using assms
  by (auto simp: ensure_pos_def pos_codes_def Let_def split: option.splits dest: find_NoneD)

lemma ensure_pos_ensures:
  assumes "ensure_pos c code cache = (c', cache', i)" and "dom cache \<subseteq> pos_codes c"
  shows "code \<in> pos_codes c'" "dom cache' \<subseteq> pos_codes c'"
  using assms
  by (auto simp: ensure_pos_def pos_codes_def Let_def subset_iff dom_def
           split: option.splits if_splits dest!: find_SomeD)

lemma ensure_dialect_frame:
  assumes "ensure_dialect c code cache = (c', cache', i)"
  shows "lemma_tbl c' = lemma_tbl c" "lemma_pos_tbl c' = lemma_pos_tbl c"
        "sense_tbl c' = sense_tbl c" "pos_tbl c' = pos_tbl c" "form_tbl c' = form_tbl c"
        "dialect_codes c \<subseteq> dialect_codes c'"
  using assms
  by (auto simp: ensure_dialect_def dialect_codes_def Let_def split: option.splits)

lemma ensure_dialect_present:
  assumes "ensure_dialect c code cache = (c', cache', i)" and "code \<in> dialect_codes c"
  shows "dialect_tbl c' = dialect_tbl c"
  using assms
  by (auto simp: ensure_dialect_def dialect_codes_def Let_def split: option.splits
           dest: find_NoneD)

lemma ensure_dialect_ensures:
  assumes "ensure_dialect c code cache = (c', cache', i)" and "dom cache \<subseteq> dialect_codes c"
  shows "code \<in> dialect_codes c'" "dom cache' \<subseteq> dialect_codes c'"
  using assms
  by (auto simp: ensure_dialect_def dialect_codes_def Let_def subset_iff dom_def
           split: option.splits if_splits dest!: find_SomeD)

lemma ensure_lemma_str:
  assumes "ensure_lemma c headword cache = Inr r"
  obtains hw where "headword = JStr hw"
  using assms by (cases headword) (simp_all add: ensure_lemma_def normalize_def)

lemma ensure_lemma_frame:
  assumes "ensure_lemma c (JStr hw) cache = Inr (c', cache', i)"
  shows "pos_tbl c' = pos_tbl c" "lemma_pos_tbl c' = lemma_pos_tbl c"
        "sense_tbl c' = sense_tbl c" "dialect_tbl c' = dialect_tbl c" "form_tbl c' = form_tbl c"
        "lemma_keys c \<subseteq> lemma_keys c'"
  using assms
  by (auto simp: ensure_lemma_def normalize_def lemma_keys_def Let_def split: option.splits)

lemma ensure_lemma_present:
  assumes "ensure_lemma c (JStr hw) cache = Inr (c', cache', i)"
      and "(hw, lower hw) \<in> lemma_keys c"
  shows "lemma_tbl c' = lemma_tbl c"
  using assms
  by (auto simp: ensure_lemma_def normalize_def lemma_keys_def lemma_key_def Let_def
           split: option.splits dest: find_NoneD)

lemma ensure_lemma_ensures:
  assumes "ensure_lemma c (JStr hw) cache = Inr (c', cache', i)"
      and "dom cache \<subseteq> lemma_keys c"
  shows "(hw, lower hw) \<in> lemma_keys c'" "dom cache' \<subseteq> lemma_keys c'"
  using assms
proof -
  show "(hw, lower hw) \<in> lemma_keys c'"
    using assms
    by (force simp: ensure_lemma_def normalize_def lemma_keys_def lemma_key_def Let_def
                 new_lemma_row_def subset_iff dom_def
           split: option.splits if_splits dest!: find_SomeD)
  show "dom cache' \<subseteq> lemma_keys c'"
    using assms
    by (fastforce simp: ensure_lemma_def normalize_def lemma_keys_def lemma_key_def Let_def
                 new_lemma_row_def subset_iff dom_def
           split: option.splits if_splits dest!: find_SomeD)
qed

lemma update_lemma_metadata_frame:
  assumes "update_lemma_metadata lib c lid md = Inr c'"
  shows "pos_tbl c' = pos_tbl c" "lemma_pos_tbl c' = lemma_pos_tbl c"
        "sense_tbl c' = sense_tbl c" "dialect_tbl c' = dialect_tbl c" "form_tbl c' = form_tbl c"
        "map lemma_key (lemma_tbl c') = map lemma_key (lemma_tbl c)"
  using assms
  by (cases rule: update_lemma_metadata_InrE; simp add: lemma_key_def comp_def)+

lemma insert_lemma_pos_frame:
  "lemma_tbl (insert_lemma_pos c l p) = lemma_tbl c"
  "pos_tbl (insert_lemma_pos c l p) = pos_tbl c"
  "sense_tbl (insert_lemma_pos c l p) = sense_tbl c"
  "dialect_tbl (insert_lemma_pos c l p) = dialect_tbl c"
  "form_tbl (insert_lemma_pos c l p) = form_tbl c"
  by (simp_all add: insert_lemma_pos_def)

lemma insert_sense_row:
  assumes "insert_sense lib l p idx sense c = Inr c'"
  shows "\<exists>row. c' = c\<lparr>sense_tbl := sense_tbl c @ [row]\<rparr>"
  using assms unfolding insert_sense_def
  by (auto simp: bindE_eq_Inr split: if_splits)

lemma senses_loop_frame:
  "senses_loop lib l p idx senses c = Inr c' \<Longrightarrow>
   length (sense_tbl c') = length (sense_tbl c) + length senses
   \<and> lemma_tbl c' = lemma_tbl c \<and> pos_tbl c' = pos_tbl c
   \<and> lemma_pos_tbl c' = lemma_pos_tbl c \<and> dialect_tbl c' = dialect_tbl c
   \<and> form_tbl c' = form_tbl c"
proof (induction senses arbitrary: idx c)
  case Nil
  then show ?case by simp
next
  case (Cons sense senses)
  from Cons.prems obtain c1 where 1: "insert_sense lib l p idx sense c = Inr c1"
    and 2: "senses_loop lib l p (idx + 1) senses c1 = Inr c'"
    by (auto simp: bindE_eq_Inr)
  from insert_sense_row[OF 1] obtain row where "c1 = c\<lparr>sense_tbl := sense_tbl c @ [row]\<rparr>"
    by blast
  with Cons.IH[OF 2] show ?case by simp
qed

lemma insert_form_row_row:
  assumes "insert_form_row lib l p ft fn di parsed pt gc tags fe c = Inr c'"
  shows "\<exists>row. c' = c\<lparr>form_tbl := form_tbl c @ [row]\<rparr>"
  using assms unfolding insert_form_row_def
  by (auto simp: bindE_eq_Inr)

lemma insert_form_cases:
  assumes "insert_form lib l p pt gc form_entry c dc = Inr (c', dc')"
  obtains (rejected) "should_keep_form form_entry = Inr False" "c' = c" "dc' = dc"
        "form_dialect form_entry = None"
  | (plain) row where "should_keep_form form_entry = Inr True"
        "form_dialect form_entry = None" "c' = c\<lparr>form_tbl := form_tbl c @ [row]\<rparr>" "dc' = dc"
  | (dialect) d c1 i row where "should_keep_form form_entry = Inr True"
        "form_dialect form_entry = Some d" "ensure_dialect c d dc = (c1, dc', i)"
        "c' = c1\<lparr>form_tbl := form_tbl c1 @ [row]\<rparr>"
proof -
  from assms obtain keep where k: "should_keep_form form_entry = Inr keep"
    unfolding insert_form_def by (auto simp: bindE_eq_Inr)
  show ?thesis
  proof (cases keep)
    case False
    with assms k show ?thesis
      by (intro rejected) (auto simp: insert_form_def form_dialect_def)
  next
    case True
    with assms k obtain form_text form_norm t parsed where
      f: "py_get form_entry ''tags'' = Inr t" "parse_tags (or_empty t) = Inr parsed"
      and r: "(case (case pt_dialect parsed of
                   None \<Rightarrow> (c, dc, None)
                 | Some d \<Rightarrow>
                     if d = [] then (c, dc, None)
                     else (case ensure_dialect c d dc of
                             (c', cache', i) \<Rightarrow> (c', cache', Some i))) of
             (c1, dcache', dialect_id) \<Rightarrow>
               bindE (insert_form_row lib l p form_text form_norm dialect_id
                        parsed pt gc (or_empty t) form_entry c1)
                 (\<lambda>c2. Inr (c2, dcache'))) = Inr (c', dc')"
      unfolding insert_form_def by (auto simp: bindE_eq_Inr Let_def)
    show ?thesis
    proof (cases "form_dialect form_entry")
      case None
      with k True f have "pt_dialect parsed = None \<or> pt_dialect parsed = Some []"
        by (auto simp: form_dialect_def split: option.splits if_splits)
      with r obtain di where "insert_form_row lib l p form_text form_norm di
                        parsed pt gc (or_empty t) form_entry c = Inr c'" "dc' = dc"
        by (auto simp: bindE_eq_Inr)
      with insert_form_row_row[OF this(1)] show ?thesis
        using k True None by (auto intro: plain)
    next
      case (Some d)
      with k True f have d: "pt_dialect parsed = Some d" "d \<noteq> []"
        by (auto simp: form_dialect_def split: option.splits if_splits)
      obtain c1 dc1 i where e: "ensure_dialect c d dc = (c1, dc1, i)" by (metis prod_cases3)
      with r d have "insert_form_row lib l p form_text form_norm (Some i)
                        parsed pt gc (or_empty t) form_entry c1 = Inr c'" "dc' = dc1"
        by (auto simp: bindE_eq_Inr)
      with insert_form_row_row[OF this(1)] show ?thesis
        using k True Some e by (auto intro: dialect)
    qed
  qed
qed

lemma forms_loop_frame:
  "forms_loop lib l p pt gc forms c dc = Inr (c', dc') \<Longrightarrow>
   length (form_tbl c') =
     length (form_tbl c) + length (filter (\<lambda>fe. should_keep_form fe = Inr True) forms)
   \<and> lemma_tbl c' = lemma_tbl c \<and> pos_tbl c' = pos_tbl c
   \<and> lemma_pos_tbl c' = lemma_pos_tbl c \<and> sense_tbl c' = sense_tbl c
   \<and> dialect_codes c \<subseteq> dialect_codes c'"
proof (induction forms arbitrary: c dc)
  case Nil
  then show ?case by simp
next
  case (Cons fe forms)
  from Cons.prems obtain c1 dc1 where 1: "insert_form lib l p pt gc fe c dc = Inr (c1, dc1)"
    and 2: "forms_loop lib l p pt gc forms c1 dc1 = Inr (c', dc')"
    by (auto simp: bindE_eq_Inr)
  note ih = Cons.IH[OF 2]
  from 1 show ?case
  proof (cases rule: insert_form_cases)
    case rejected
    with ih show ?thesis by simp
  next
    case (plain row)
    with ih show ?thesis by (simp add: dialect_codes_def)
  next
    case (dialect d c2 i row)
    from ensure_dialect_frame[OF dialect(3)] dialect(1,4) ih show ?thesis
      by (auto simp: dialect_codes_def)
  qed
qed

lemma forms_loop_ensures:
  "forms_loop lib l p pt gc forms c dc = Inr (c', dc') \<Longrightarrow> dom dc \<subseteq> dialect_codes c \<Longrightarrow>
   dom dc' \<subseteq> dialect_codes c'
   \<and> (\<forall>fe \<in> set forms. \<forall>d. form_dialect fe = Some d \<longrightarrow> d \<in> dialect_codes c')"
proof (induction forms arbitrary: c dc)
  case Nil
  then show ?case by simp
next
  case (Cons fe forms)
  from Cons.prems obtain c1 dc1 where 1: "insert_form lib l p pt gc fe c dc = Inr (c1, dc1)"
    and 2: "forms_loop lib l p pt gc forms c1 dc1 = Inr (c', dc')"
    by (auto simp: bindE_eq_Inr)
  from forms_loop_frame[OF 2] have mono: "dialect_codes c1 \<subseteq> dialect_codes c'" by simp
  from 1 show ?case
  proof (cases rule: insert_form_cases)
    case rejected
    with Cons.IH[OF 2] Cons.prems(2) show ?thesis by simp
  next
    case (plain row)
    then have "dom dc1 \<subseteq> dialect_codes c1" using Cons.prems(2) by (simp add: dialect_codes_def)
    with Cons.IH[OF 2] plain show ?thesis by simp
  next
    case (dialect d c2 i row)
    from ensure_dialect_ensures[OF dialect(3) Cons.prems(2)]
    have "d \<in> dialect_codes c1" "dom dc1 \<subseteq> dialect_codes c1"
      using dialect(4) by (simp_all add: dialect_codes_def)
    with Cons.IH[OF 2] dialect mono show ?thesis by auto
  qed
qed

lemma forms_loop_present:
  "forms_loop lib l p pt gc forms c dc = Inr (c', dc') \<Longrightarrow>
   \<forall>fe \<in> set forms. \<forall>d. form_dialect fe = Some d \<longrightarrow> d \<in> dialect_codes c \<Longrightarrow>
   dialect_tbl c' = dialect_tbl c"
proof (induction forms arbitrary: c dc)
  case Nil
  then show ?case by simp
next
  case (Cons fe forms)
  from Cons.prems obtain c1 dc1 where 1: "insert_form lib l p pt gc fe c dc = Inr (c1, dc1)"
    and 2: "forms_loop lib l p pt gc forms c1 dc1 = Inr (c', dc')"
    by (auto simp: bindE_eq_Inr)
  from 1 have "dialect_tbl c1 = dialect_tbl c"
  proof (cases rule: insert_form_cases)
    case rejected
    then show ?thesis by simp
  next
    case (plain row)
    then show ?thesis by simp
  next
    case (dialect d c2 i row)
    with Cons.prems(2) have "d \<in> dialect_codes c" by simp
    from ensure_dialect_present[OF dialect(3) this] dialect(4) show ?thesis by simp
  qed
  moreover from this have "dialect_codes c1 = dialect_codes c" by (simp add: dialect_codes_def)
  ultimately show ?case using Cons.IH[OF 2] Cons.prems(2) by simp
qed

lemma has_keys_mono: "keys_le c c' \<Longrightarrow> has_keys c a \<Longrightarrow> has_keys c' a"
  by (cases a) (auto simp: has_keys_def keys_le_def)

lemma keys_le_refl [simp]: "keys_le c c"
  by (simp add: keys_le_def)

lemma keys_le_trans: "keys_le a b \<Longrightarrow> keys_le b c \<Longrightarrow> keys_le a c"
  by (auto simp: keys_le_def)

lemma elements_of:
  "py_get entry k = Inr v \<Longrightarrow> py_iter (or_empty v) = Inr xs \<Longrightarrow>
   elements (get_field entry k) = xs"
  by (simp add: elements_def get_field_def)

lemma persist_entry_tables:
  assumes "persist_entry lib ce entry pos_code headword st = Inr st'"
  obtains hw c1 pc pid c2 lc lid c5 pt gc dc where
    "headword = JStr hw"
    "ensure_pos (st_conn st) pos_code (pos_cache st) = (c1, pc, pid)"
    "ensure_lemma c1 (JStr hw) (lemma_cache st) = Inr (c2, lc, lid)"
    "pos_tbl c5 = pos_tbl c2" "dialect_tbl c5 = dialect_tbl c2"
    "map lemma_key (lemma_tbl c5) = map lemma_key (lemma_tbl c2)"
    "length (sense_tbl c5) = length (sense_tbl c2) + entry_sense_count entry"
    "form_tbl c5 = form_tbl c2"
    "forms_loop lib lid pid pt gc (elements (get_field entry ''forms'')) c5 (dialect_cache st)
       = Inr (st_conn st', dc)"
    "pos_cache st' = pc" "dialect_cache st' = dc" "lemma_cache st' = lc"
  using assms
proof (cases rule: persist_entry_InrE)
  case (1 md c1 pc pid c2 lc lid c3 pt gc s senses c5 f forms c6 dc)
  from ensure_lemma_str[OF 1(3)] obtain hw where hw: "headword = JStr hw" .
  note u = update_lemma_metadata_frame[OF 1(4)]
  note sl = senses_loop_frame[OF 1(9)]
  have fs: "elements (get_field entry ''forms'') = forms" by (rule elements_of[OF 1(10,11)])
  have ss: "entry_sense_count entry = length senses"
    by (simp add: entry_sense_count_def elements_of[OF 1(7,8)])
  show ?thesis
  proof (rule that[of hw c1 pc pid c2 lc lid c5 pt gc dc])
    show "headword = JStr hw" by (rule hw)
    show "ensure_pos (st_conn st) pos_code (pos_cache st) = (c1, pc, pid)" by (rule 1(2))
    show "ensure_lemma c1 (JStr hw) (lemma_cache st) = Inr (c2, lc, lid)"
      using 1(3) hw by simp
    show "pos_tbl c5 = pos_tbl c2" using sl u by (simp add: insert_lemma_pos_frame)
    show "dialect_tbl c5 = dialect_tbl c2" using sl u by (simp add: insert_lemma_pos_frame)
    show "map lemma_key (lemma_tbl c5) = map lemma_key (lemma_tbl c2)"
      using sl u by (simp add: insert_lemma_pos_frame)
    show "length (sense_tbl c5) = length (sense_tbl c2) + entry_sense_count entry"
      using sl u ss by (simp add: insert_lemma_pos_frame)
    show "form_tbl c5 = form_tbl c2" using sl u by (simp add: insert_lemma_pos_frame)
    show "forms_loop lib lid pid pt gc (elements (get_field entry ''forms'')) c5
            (dialect_cache st) = Inr (st_conn st', dc)"
      using 1(12,14) fs by simp
    show "pos_cache st' = pc" "dialect_cache st' = dc" "lemma_cache st' = lc"
      using 1(14) by simp_all
  qed
qed

lemma persist_entry_counts:
  assumes "persist_entry lib ce entry pos_code headword st = Inr st'"
  shows "length (sense_tbl (st_conn st')) = length (sense_tbl (st_conn st)) + entry_sense_count entry"
    and "length (form_tbl (st_conn st')) = length (form_tbl (st_conn st)) + entry_form_count entry"
  using assms
proof (atomize (full), cases rule: persist_entry_tables)
  case (1 hw c1 pc pid c2 lc lid c5 pt gc dc)
  note a = ensure_pos_frame[OF 1(2)] and b = ensure_lemma_frame[OF 1(3)]
    and c = forms_loop_frame[OF 1(9)]
  show "length (sense_tbl (st_conn st')) = length (sense_tbl (st_conn st)) + entry_sense_count entry
      \<and> length (form_tbl (st_conn st')) = length (form_tbl (st_conn st)) + entry_form_count entry"
    using a b c 1(7,8) by (simp add: entry_form_count_def)
qed

lemma persist_entry_ensures:
  assumes "persist_entry lib ce entry pos_code headword st = Inr st'"
  shows "keys_le (st_conn st) (st_conn st')"
    and "cache_ok st \<Longrightarrow> cache_ok st' \<and> has_keys (st_conn st') (entry, pos_code, headword)"
  using assms
proof (atomize (full), cases rule: persist_entry_tables)
  case (1 hw c1 pc pid c2 lc lid c5 pt gc dc)
  note a = ensure_pos_frame[OF 1(2)] and b = ensure_lemma_frame[OF 1(3)]
    and c = forms_loop_frame[OF 1(9)]
  have k5: "pos_codes c5 = pos_codes c2" "dialect_codes c5 = dialect_codes c2"
    "lemma_keys c5 = lemma_keys c2"
    using 1(4,5) arg_cong[OF 1(6), of set] by (simp_all add: pos_codes_def dialect_codes_def lemma_keys_def)
  have k6: "pos_codes (st_conn st') = pos_codes c5" "lemma_keys (st_conn st') = lemma_keys c5"
    "dialect_codes c5 \<subseteq> dialect_codes (st_conn st')"
    using c by (simp_all add: pos_codes_def lemma_keys_def)
  have k2: "pos_codes c2 = pos_codes c1" "dialect_codes c2 = dialect_codes c1"
    using b by (simp_all add: pos_codes_def dialect_codes_def)
  have k1: "dialect_codes c1 = dialect_codes (st_conn st)" "lemma_keys c1 = lemma_keys (st_conn st)"
    using a by (simp_all add: dialect_codes_def lemma_keys_def)
  have le: "keys_le (st_conn st) (st_conn st')"
    using a(6) b(6) k1 k2 k5 k6 by (auto simp: keys_le_def)
  have ok: "cache_ok st' \<and> has_keys (st_conn st') (entry, pos_code, headword)" if ok: "cache_ok st"
  proof -
    from ok have o: "dom (pos_cache st) \<subseteq> pos_codes (st_conn st)"
      "dom (dialect_cache st) \<subseteq> dialect_codes (st_conn st)"
      "dom (lemma_cache st) \<subseteq> lemma_keys (st_conn st)"
      by (simp_all add: cache_ok_def)
    note p = ensure_pos_ensures[OF 1(2) o(1)]
    have "dom (lemma_cache st) \<subseteq> lemma_keys c1" using o(3) k1 by simp
    note l = ensure_lemma_ensures[OF 1(3) this]
    have "dom (dialect_cache st) \<subseteq> dialect_codes c5" using o(2) k1 k2 k5 by simp
    note f = forms_loop_ensures[OF 1(9) this]
    show ?thesis
      using p l f 1(1,10,11,12) k2 k5 k6
      by (auto simp: cache_ok_def has_keys_def)
  qed
  show "keys_le (st_conn st) (st_conn st') \<and>
        (cache_ok st \<longrightarrow> cache_ok st' \<and> has_keys (st_conn st') (entry, pos_code, headword))"
    using le ok by blast
qed

lemma persist_entry_present:
  assumes "persist_entry lib ce entry pos_code headword st = Inr st'"
      and "has_keys (st_conn st) (entry, pos_code, headword)"
  shows "pos_tbl (st_conn st') = pos_tbl (st_conn st)
       \<and> dialect_tbl (st_conn st') = dialect_tbl (st_conn st)
       \<and> map lemma_key (lemma_tbl (st_conn st')) = map lemma_key (lemma_tbl (st_conn st))"
  using assms(1)
proof (cases rule: persist_entry_tables)
  case (1 hw c1 pc pid c2 lc lid c5 pt gc dc)
  from assms(2) 1(1) have h: "pos_code \<in> pos_codes (st_conn st)"
    "(hw, lower hw) \<in> lemma_keys (st_conn st)"
    "\<forall>fe \<in> set (elements (get_field entry ''forms'')).
       \<forall>d. form_dialect fe = Some d \<longrightarrow> d \<in> dialect_codes (st_conn st)"
    by (simp_all add: has_keys_def)
  note a = ensure_pos_frame[OF 1(2)] and a' = ensure_pos_present[OF 1(2) h(1)]
  have "(hw, lower hw) \<in> lemma_keys c1" using h(2) a by (simp add: lemma_keys_def)
  note b = ensure_lemma_frame[OF 1(3)] and b' = ensure_lemma_present[OF 1(3) this]
  have d5: "dialect_tbl c5 = dialect_tbl (st_conn st)" using 1(5) a b by simp
  then have "dialect_codes c5 = dialect_codes (st_conn st)" by (simp add: dialect_codes_def)
  with h(3) have "\<forall>fe \<in> set (elements (get_field entry ''forms'')).
       \<forall>d. form_dialect fe = Some d \<longrightarrow> d \<in> dialect_codes c5" by simp
  note c = forms_loop_frame[OF 1(9)] and c' = forms_loop_present[OF 1(9) this]
  show ?thesis
    using a a' b b' c c' d5 1(4,6) by simp
qed

lemma import_line_accepted:
  assumes "import_line lib allowed ce line st = Inr st'"
  shows "case accepted_entry lib allowed line of
           None \<Rightarrow> st_conn st' = st_conn st \<and> pos_cache st' = pos_cache st
                  \<and> dialect_cache st' = dialect_cache st \<and> lemma_cache st' = lemma_cache st
         | Some a \<Rightarrow> persist_entry lib ce (fst a) (fst (snd a)) (snd (snd a)) st = Inr st'"
proof (cases "strip line = []")
  case True
  then show ?thesis using assms by (simp add: import_line_def accepted_entry_def)
next
  case nb: False
  show ?thesis
  proof (cases "loads lib (strip line)")
    case (Inl err)
    then show ?thesis
      using assms nb
      by (auto simp: import_line_def accepted_entry_def Let_def split: if_splits)
  next
    case ent: (Inr entry)
    show ?thesis
    proof (cases "py_get entry ''lang_code''")
      case (Inl e)
      then show ?thesis using assms nb ent by (simp add: import_line_def Let_def)
    next
      case lc: (Inr lang_code)
      show ?thesis
      proof (cases "lang_code = JStr ''grc''")
        case False
        then show ?thesis
          using assms nb ent lc by (auto simp: import_line_def accepted_entry_def Let_def)
      next
        case grc: True
        show ?thesis
        proof (cases "py_get entry ''pos''")
          case (Inl e)
          then show ?thesis using assms nb ent lc grc by (simp add: import_line_def Let_def)
        next
          case p: (Inr p)
          show ?thesis
          proof (cases "py_strip (if truthy p then p else JStr [])")
            case (Inl e)
            then show ?thesis
              using assms nb ent lc grc p by (simp add: import_line_def Let_def)
          next
            case pc: (Inr pos_code)
            show ?thesis
            proof (cases "pos_code = [] \<or> pos_code \<notin> allowed")
              case True
              then show ?thesis
                using assms nb ent lc grc p pc
                by (auto simp: import_line_def accepted_entry_def Let_def split: if_splits)
            next
              case ok: False
              show ?thesis
              proof (cases "py_get entry ''word''")
                case (Inl e)
                then show ?thesis
                  using assms nb ent lc grc p pc ok by (simp add: import_line_def Let_def)
              next
                case (Inr headword)
                then show ?thesis
                  using assms nb ent lc grc p pc ok
                  by (cases "truthy headword")
                     (auto simp: import_line_def accepted_entry_def Let_def)
              qed
            qed
          qed
        qed
      qed
    qed
  qed
qed

lemma import_line_step:
  assumes "import_line lib allowed ce line st = Inr st'"
  shows "keys_le (st_conn st) (st_conn st')"
    and "cache_ok st \<Longrightarrow> cache_ok st' \<and> line_has_keys lib allowed (st_conn st') line"
    and "length (sense_tbl (st_conn st'))
           = length (sense_tbl (st_conn st)) + line_sense_count lib allowed line"
    and "length (form_tbl (st_conn st'))
           = length (form_tbl (st_conn st)) + line_form_count lib allowed line"
    and "line_has_keys lib allowed (st_conn st) line \<Longrightarrow>
           pos_tbl (st_conn st') = pos_tbl (st_conn st)
         \<and> dialect_tbl (st_conn st') = dialect_tbl (st_conn st)
         \<and> map lemma_key (lemma_tbl (st_conn st')) = map lemma_key (lemma_tbl (st_conn st))"
proof -
  note a = import_line_accepted[OF assms]
  show "keys_le (st_conn st) (st_conn st')"
    using a by (auto split: option.splits dest: persist_entry_ensures(1))
  show "cache_ok st' \<and> line_has_keys lib allowed (st_conn st') line" if "cache_ok st"
    using a that persist_entry_ensures(2)
    by (cases "accepted_entry lib allowed line") (auto simp: line_has_keys_def cache_ok_def)
  show "length (sense_tbl (st_conn st'))
           = length (sense_tbl (st_conn st)) + line_sense_count lib allowed line"
    using a by (auto simp: line_sense_count_def split: option.splits dest: persist_entry_counts(1))
  show "length (form_tbl (st_conn st'))
           = length (form_tbl (st_conn st)) + line_form_count lib allowed line"
    using a by (auto simp: line_form_count_def split: option.splits dest: persist_entry_counts(2))
  show "pos_tbl (st_conn st') = pos_tbl (st_conn st)
         \<and> dialect_tbl (st_conn st') = dialect_tbl (st_conn st)
         \<and> map lemma_key (lemma_tbl (st_conn st')) = map lemma_key (lemma_tbl (st_conn st))"
    if "line_has_keys lib allowed (st_conn st) line"
    using a that persist_entry_present
    by (cases "accepted_entry lib allowed line") (auto simp: line_has_keys_def)
qed

lemma line_has_keys_mono:
  "keys_le c c' \<Longrightarrow> line_has_keys lib allowed c line \<Longrightarrow> line_has_keys lib allowed c' line"
  by (auto simp: line_has_keys_def split: option.splits intro: has_keys_mono)

lemma import_lines_first_run:
  "import_lines lib allowed ce lines st = Inr st' \<Longrightarrow>
   keys_le (st_conn st) (st_conn st')
   \<and> length (sense_tbl (st_conn st'))
       = length (sense_tbl (st_conn st)) + sum_list (map (line_sense_count lib allowed) lines)
   \<and> length (form_tbl (st_conn st'))
       = length (form_tbl (st_conn st)) + sum_list (map (line_form_count lib allowed) lines)
   \<and> (cache_ok st \<longrightarrow>
        cache_ok st' \<and> (\<forall>line \<in> set lines. line_has_keys lib allowed (st_conn st') line))"
proof (induction lines arbitrary: st)
  case Nil
  then show ?case by simp
next
  case (Cons l ls)
  from Cons.prems obtain st1 where 1: "import_line lib allowed ce l st = Inr st1"
    and 2: "import_lines lib allowed ce ls st1 = Inr st'"
    by (auto simp: bindE_eq_Inr)
  note s = import_line_step[OF 1] and ih = Cons.IH[OF 2]
  have "keys_le (st_conn st) (st_conn st')" using s(1) ih by (blast intro: keys_le_trans)
  moreover have "cache_ok st' \<and> (\<forall>line \<in> set (l # ls). line_has_keys lib allowed (st_conn st') line)"
    if "cache_ok st"
    using s(2)[OF that] ih by (auto intro: line_has_keys_mono)
  ultimately show ?case using s(3,4) ih by simp
qed

lemma import_lines_second_run:
  "import_lines lib allowed ce lines st = Inr st' \<Longrightarrow>
   \<forall>line \<in> set lines. line_has_keys lib allowed (st_conn st) line \<Longrightarrow>
   pos_tbl (st_conn st') = pos_tbl (st_conn st)
   \<and> dialect_tbl (st_conn st') = dialect_tbl (st_conn st)
   \<and> map lemma_key (lemma_tbl (st_conn st')) = map lemma_key (lemma_tbl (st_conn st))"
proof (induction lines arbitrary: st)
  case Nil
  then show ?case by simp
next
  case (Cons l ls)
  from Cons.prems(1) obtain st1 where 1: "import_line lib allowed ce l st = Inr st1"
    and 2: "import_lines lib allowed ce ls st1 = Inr st'"
    by (auto simp: bindE_eq_Inr)
  note s = import_line_step[OF 1]
  have "\<forall>line \<in> set ls. line_has_keys lib allowed (st_conn st1) line"
    using Cons.prems(2) s(1) by (auto intro: line_has_keys_mono)
  from Cons.IH[OF 2 this] s(5) Cons.prems(2) show ?case by simp
qed

lemma ensure_lemma_succeeds:
  "ensure_lemma c headword cache = Inr r \<Longrightarrow> \<exists>r2. ensure_lemma c2 headword cache2 = Inr r2"
  by (cases headword)
     (auto simp: ensure_lemma_def normalize_def Let_def split: option.splits)

lemma update_lemma_metadata_succeeds:
  "update_lemma_metadata lib c lid md = Inr c' \<Longrightarrow>
   \<exists>c2'. update_lemma_metadata lib c2 lid2 md = Inr c2'"
  by (erule update_lemma_metadata_InrE) (simp_all add: update_lemma_metadata_def)

lemma insert_sense_succeeds:
  "insert_sense lib l p idx sense c = Inr c' \<Longrightarrow>
   \<exists>c2'. insert_sense lib l2 p2 idx sense c2 = Inr c2'"
  unfolding insert_sense_def
  by (auto simp: bindE_eq_Inr split: if_splits)

lemma senses_loop_succeeds:
  "senses_loop lib l p idx senses c = Inr c' \<Longrightarrow>
   \<exists>c2'. senses_loop lib l2 p2 idx senses c2 = Inr c2'"
proof (induction senses arbitrary: idx c c2)
  case Nil
  then show ?case by simp
next
  case (Cons sense senses)
  from Cons.prems obtain c1 where 1: "insert_sense lib l p idx sense c = Inr c1"
    and 2: "senses_loop lib l p (idx + 1) senses c1 = Inr c'"
    by (auto simp: bindE_eq_Inr)
  from insert_sense_succeeds[OF 1] obtain d1 where "insert_sense lib l2 p2 idx sense c2 = Inr d1"
    by blast
  with Cons.IH[OF 2, of d1] show ?case by simp
qed

lemma insert_form_row_succeeds:
  "insert_form_row lib l p ft fn di parsed pt gc tags fe c = Inr c' \<Longrightarrow>
   \<exists>c2'. insert_form_row lib l2 p2 ft fn di2 parsed pt gc tags fe c2 = Inr c2'"
  unfolding insert_form_row_def
  by (auto simp: bindE_eq_Inr)

lemma insert_form_succeeds:
  assumes "insert_form lib l p pt gc fe c dc = Inr r"
  shows "\<exists>r2. insert_form lib l2 p2 pt gc fe c2 dc2 = Inr r2"
proof -
  from assms obtain keep where k: "should_keep_form fe = Inr keep"
    unfolding insert_form_def by (auto simp: bindE_eq_Inr)
  show ?thesis
  proof (cases keep)
    case False
    then show ?thesis using k by (simp add: insert_form_def)
  next
    case True
    with assms k obtain form_text form_norm t parsed where
      f: "py_get fe ''form'' = Inr form_text" "normalize form_text = Inr form_norm"
         "py_get fe ''tags'' = Inr t" "parse_tags (or_empty t) = Inr parsed"
      and r0: "(case (case pt_dialect parsed of
                   None \<Rightarrow> (c, dc, None)
                 | Some d \<Rightarrow>
                     if d = [] then (c, dc, None)
                     else (case ensure_dialect c d dc of
                             (c', cache', i) \<Rightarrow> (c', cache', Some i))) of
             (c1, dcache', dialect_id) \<Rightarrow>
               bindE (insert_form_row lib l p form_text form_norm dialect_id
                        parsed pt gc (or_empty t) fe c1)
                 (\<lambda>c2. Inr (c2, dcache'))) = Inr r"
      unfolding insert_form_def by (auto simp: bindE_eq_Inr Let_def)
    have "\<exists>c1 di c'. insert_form_row lib l p form_text form_norm di parsed pt gc
                        (or_empty t) fe c1 = Inr c'"
    proof (cases "pt_dialect parsed")
      case None
      with r0 show ?thesis by (auto simp: bindE_eq_Inr)
    next
      case (Some d)
      show ?thesis
      proof (cases "d = []")
        case True
        with r0 Some show ?thesis by (auto simp: bindE_eq_Inr)
      next
        case False
        obtain x y z where "ensure_dialect c d dc = (x, y, z)" by (metis prod_cases3)
        with r0 Some False show ?thesis by (auto simp: bindE_eq_Inr)
      qed
    qed
    then obtain c1 di c' where
      r: "insert_form_row lib l p form_text form_norm di parsed pt gc (or_empty t) fe c1
            = Inr c'"
      by blast
    show ?thesis
    proof (cases "pt_dialect parsed")
      case None
      from insert_form_row_succeeds[OF r, of l2 p2 None c2] obtain d2 where
        "insert_form_row lib l2 p2 form_text form_norm None parsed pt gc (or_empty t) fe c2
           = Inr d2"
        by blast
      then show ?thesis using k True f None by (simp add: insert_form_def Let_def)
    next
      case (Some d)
      show ?thesis
      proof (cases "d = []")
        case e: True
        from insert_form_row_succeeds[OF r, of l2 p2 None c2] obtain d2 where
          "insert_form_row lib l2 p2 form_text form_norm None parsed pt gc (or_empty t) fe c2
             = Inr d2"
          by blast
        then show ?thesis using k True f Some e by (simp add: insert_form_def Let_def)
      next
        case ne: False
        obtain x y z where x: "ensure_dialect c2 d dc2 = (x, y, z)" by (metis prod_cases3)
        from insert_form_row_succeeds[OF r, of l2 p2 "Some z" x] obtain d2 where
          "insert_form_row lib l2 p2 form_text form_norm (Some z) parsed pt gc (or_empty t) fe x
             = Inr d2"
          by blast
        then show ?thesis using k True f Some ne x by (simp add: insert_form_def Let_def)
      qed
    qed
  qed
qed

lemma forms_loop_succeeds:
  "forms_loop lib l p pt gc forms c dc = Inr r \<Longrightarrow>
   \<exists>r2. forms_loop lib l2 p2 pt gc forms c2 dc2 = Inr r2"
proof (induction forms arbitrary: c dc c2 dc2 r)
  case Nil
  then show ?case by simp
next
  case (Cons fe forms)
  from Cons.prems obtain r1 where 1: "insert_form lib l p pt gc fe c dc = Inr r1"
    and 2: "forms_loop lib l p pt gc forms (fst r1) (snd r1) = Inr r"
    by (auto simp: bindE_eq_Inr)
  from insert_form_succeeds[OF 1] obtain q1 where "insert_form lib l2 p2 pt gc fe c2 dc2 = Inr q1"
    by blast
  with Cons.IH[OF 2, of "fst q1" "snd q1"] show ?case by simp
qed

lemma persist_entry_succeeds:
  assumes "persist_entry lib ce entry pos_code headword st = Inr st'"
  shows "\<exists>t'. persist_entry lib ce entry pos_code headword t = Inr t'"
  using assms
proof (cases rule: persist_entry_InrE)
  case (1 md c1 pc pid c2 lc lid c3 pt gc s senses c5 f forms c6 dc)
  obtain d1 qc qid where a: "ensure_pos (st_conn t) pos_code (pos_cache t) = (d1, qc, qid)"
    by (metis prod_cases3)
  from ensure_lemma_succeeds[OF 1(3)] obtain d2 ql qlid where
    b: "ensure_lemma d1 headword (lemma_cache t) = Inr (d2, ql, qlid)"
    by (metis prod_cases3)
  from update_lemma_metadata_succeeds[OF 1(4)] obtain d3 where
    c: "update_lemma_metadata lib d2 qlid md = Inr d3" by blast
  from senses_loop_succeeds[OF 1(9)] obtain d5 where
    d: "senses_loop lib qlid qid 0 senses (insert_lemma_pos d3 qlid qid) = Inr d5" by blast
  from forms_loop_succeeds[OF 1(12)] obtain q where
    e: "forms_loop lib qlid qid pt gc forms d5 (dialect_cache t) = Inr q" by blast
  show ?thesis
    using 1(1,5,6,7,8,10,11,13) a b c d e
    by (simp add: persist_entry_def Let_def)
qed

lemma import_line_succeeds:
  assumes "import_line lib allowed ce line st = Inr st'"
  shows "\<exists>t'. import_line lib allowed ce line t = Inr t'"
proof (cases "strip line = []")
  case True
  then show ?thesis by (simp add: import_line_def)
next
  case nb: False
  show ?thesis
  proof (cases "loads lib (strip line)")
    case (Inl err)
    then show ?thesis
      using assms nb by (auto simp: import_line_def Let_def split: if_splits)
  next
    case ent: (Inr entry)
    show ?thesis
    proof (cases "py_get entry ''lang_code''")
      case (Inl e)
      then show ?thesis using assms nb ent by (simp add: import_line_def Let_def)
    next
      case lc: (Inr lang_code)
      show ?thesis
      proof (cases "lang_code = JStr ''grc''")
        case False
        then show ?thesis using nb ent lc by (simp add: import_line_def Let_def)
      next
        case grc: True
        show ?thesis
        proof (cases "py_get entry ''pos''")
          case (Inl e)
          then show ?thesis using assms nb ent lc grc by (simp add: import_line_def Let_def)
        next
          case p: (Inr p)
          show ?thesis
          proof (cases "py_strip (if truthy p then p else JStr [])")
            case (Inl e)
            then show ?thesis
              using assms nb ent lc grc p by (simp add: import_line_def Let_def)
          next
            case pc: (Inr pos_code)
            show ?thesis
            proof (cases "pos_code = [] \<or> pos_code \<notin> allowed")
              case True
              then show ?thesis
                using nb ent lc grc p pc by (auto simp: import_line_def Let_def)
            next
              case ok: False
              show ?thesis
              proof (cases "py_get entry ''word''")
                case (Inl e)
                then show ?thesis
                  using assms nb ent lc grc p pc ok by (simp add: import_line_def Let_def)
              next
                case hw: (Inr headword)
                show ?thesis
                proof (cases "truthy headword")
                  case False
                  then show ?thesis
                    using nb ent lc grc p pc ok hw by (simp add: import_line_def Let_def)
                next
                  case True
                  with assms nb ent lc grc p pc ok hw
                  have "persist_entry lib ce entry pos_code headword st = Inr st'"
                    by (simp add: import_line_def Let_def)
                  from persist_entry_succeeds[OF this, of t] show ?thesis
                    using nb ent lc grc p pc ok hw True by (simp add: import_line_def Let_def)
                qed
              qed
            qed
          qed
        qed
      qed
    qed
  qed
qed

lemma import_lines_succeeds:
  "import_lines lib allowed ce lines st = Inr st' \<Longrightarrow>
   \<exists>t'. import_lines lib allowed ce lines t = Inr t'"
proof (induction lines arbitrary: st t)
  case Nil
  then show ?case by simp
next
  case (Cons l ls)
  from Cons.prems obtain st1 where 1: "import_line lib allowed ce l st = Inr st1"
    and 2: "import_lines lib allowed ce ls st1 = Inr st'"
    by (auto simp: bindE_eq_Inr)
  from import_line_succeeds[OF 1, of t] obtain t1 where
    "import_line lib allowed ce l t = Inr t1" by blast
  with Cons.IH[OF 2, of t1] show ?case by simp
qed

text \<open>
  Claim C2, as the code has it.  When an import of a stream into any store has run to its
  end, the store holds the \<open>pos\<close>, \<open>lemma\<close> and \<open>dialect\<close> rows of every accepted entry of
  the stream, and the import has appended one \<open>sense\<close> row for every sense and one \<open>form\<close>
  row for every admitted form of every accepted entry.  A second import of the same
  stream into the resulting store runs to its end too; it leaves the numbers of \<open>lemma\<close>,
  \<open>pos\<close> and \<open>dialect\<close> rows as they are, and it appends as many \<open>sense\<close> rows and as many
  \<open>form\<close> rows again.  So there are strictly more sense (form) rows after the second
  import exactly when the accepted entries of the stream have at least one sense (one
  admitted form); a stream without senses and admitted forms gets no more rows, which is
  where the claim as stated fails.
\<close>

theorem reimport_row_counts:
  assumes "import_jsonl lib c0 lines allowed_pos commit_every = Inr st1"
  shows "\<exists>st2. import_jsonl lib (st_conn st1) lines allowed_pos commit_every = Inr st2
       \<and> (\<forall>line \<in> set lines. line_has_keys lib allowed_pos (st_conn st1) line)
       \<and> length (lemma_tbl (st_conn st2)) = length (lemma_tbl (st_conn st1))
       \<and> length (pos_tbl (st_conn st2)) = length (pos_tbl (st_conn st1))
       \<and> length (dialect_tbl (st_conn st2)) = length (dialect_tbl (st_conn st1))
       \<and> length (sense_tbl (st_conn st1))
           = length (sense_tbl c0) + stream_sense_count lib allowed_pos lines
       \<and> length (sense_tbl (st_conn st2))
           = length (sense_tbl (st_conn st1)) + stream_sense_count lib allowed_pos lines
       \<and> length (form_tbl (st_conn st1))
           = length (form_tbl c0) + stream_form_count lib allowed_pos lines
       \<and> length (form_tbl (st_conn st2))
           = length (form_tbl (st_conn st1)) + stream_form_count lib allowed_pos lines
       \<and> (length (sense_tbl (st_conn st1)) < length (sense_tbl (st_conn st2)))
           = (0 < stream_sense_count lib allowed_pos lines)
       \<and> (length (form_tbl (st_conn st1)) < length (form_tbl (st_conn st2)))
           = (0 < stream_form_count lib allowed_pos lines)"
proof -
  from import_lines_succeeds[OF assms[unfolded import_jsonl_def],
         of "initial_state (st_conn st1)"]
  obtain st2 where s2: "import_lines lib allowed_pos commit_every lines
                          (initial_state (st_conn st1)) = Inr st2"
    by blast
  have ok: "cache_ok (initial_state c0)" by (simp add: cache_ok_def initial_state_def)
  note r1 = import_lines_first_run[OF assms[unfolded import_jsonl_def]]
  note r2 = import_lines_first_run[OF s2]
  from r1 ok have k: "\<forall>line \<in> set lines. line_has_keys lib allowed_pos (st_conn st1) line"
    by simp
  then have "\<forall>line \<in> set lines.
      line_has_keys lib allowed_pos (st_conn (initial_state (st_conn st1))) line"
    by (simp add: initial_state_def)
  note r3 = import_lines_second_run[OF s2 this]
  from r3 have "map lemma_key (lemma_tbl (st_conn st2)) = map lemma_key (lemma_tbl (st_conn st1))"
    by (simp add: initial_state_def)
  then have l: "length (lemma_tbl (st_conn st2)) = length (lemma_tbl (st_conn st1))"
    by (rule map_eq_imp_length_eq)
  have p: "length (pos_tbl (st_conn st2)) = length (pos_tbl (st_conn st1))"
    "length (dialect_tbl (st_conn st2)) = length (dialect_tbl (st_conn st1))"
    using r3 by (simp_all add: initial_state_def)
  have s: "length (sense_tbl (st_conn st1))
             = length (sense_tbl c0) + stream_sense_count lib allowed_pos lines"
    "length (sense_tbl (st_conn st2))
             = length (sense_tbl (st_conn st1)) + stream_sense_count lib allowed_pos lines"
    using r1 r2 by (simp_all add: initial_state_def stream_sense_count_def)
  have f: "length (form_tbl (st_conn st1))
             = length (form_tbl c0) + stream_form_count lib allowed_pos lines"
    "length (form_tbl (st_conn st2))
             = length (form_tbl (st_conn st1)) + stream_form_count lib allowed_pos lines"
    using r1 r2 by (simp_all add: initial_state_def stream_form_count_def)
  have j: "import_jsonl lib (st_conn st1) lines allowed_pos commit_every = Inr st2"
    using s2 by (simp add: import_jsonl_def)
  show ?thesis
    using j k l p s f by (intro exI[of _ st2]) simp
qed

lemma example_first_run:
  "map_sum id (\<lambda>st. row_counts (st_conn st))
       (import_jsonl example_lib empty_conn example_lines {''noun''} 1000)
     = Inr [1, 1, 1, 1, 2]"
  by (simp add: example_lines_def example_lib_def empty_conn_def row_counts_def model_defs)

lemma example_stream_counts:
  "stream_sense_count example_lib {''noun''} example_lines = 1"
  "stream_form_count example_lib {''noun''} example_lines = 2"
  by (simp_all add: stream_sense_count_def stream_form_count_def line_sense_count_def
        line_form_count_def accepted_entry_def entry_sense_count_def entry_form_count_def
        example_lines_def example_lib_def get_field_def elements_def py_get_def or_empty_def
        should_keep_form_def lower_def lower_char_def strip_def is_space_def Let_def)

theorem reimport_row_counts_witness:
  "\<exists>st1 st2.
      import_jsonl example_lib empty_conn example_lines {''noun''} 1000 = Inr st1
    \<and> import_jsonl example_lib (st_conn st1) example_lines {''noun''} 1000 = Inr st2
    \<and> stream_sense_count example_lib {''noun''} example_lines = 1
    \<and> stream_form_count example_lib {''noun''} example_lines = 2
    \<and> row_counts (st_conn st1) = [1, 1, 1, 1, 2]
    \<and> row_counts (st_conn st2) = [1, 1, 1, 2, 4]"
proof -
  from example_first_run obtain st1 where
    1: "import_jsonl example_lib empty_conn example_lines {''noun''} 1000 = Inr st1"
    and c1: "row_counts (st_conn st1) = [1, 1, 1, 1, 2]"
    by (cases "import_jsonl example_lib empty_conn example_lines {''noun''} 1000") auto
  from reimport_row_counts[OF 1] obtain st2 where
    2: "import_jsonl example_lib (st_conn st1) example_lines {''noun''} 1000 = Inr st2"
    and r: "length (lemma_tbl (st_conn st2)) = length (lemma_tbl (st_conn st1))"
       "length (pos_tbl (st_conn st2)) = length (pos_tbl (st_conn st1))"
       "length (dialect_tbl (st_conn st2)) = length (dialect_tbl (st_conn st1))"
       "length (sense_tbl (st_conn st2))
           = length (sense_tbl (st_conn st1)) + stream_sense_count example_lib {''noun''} example_lines"
       "length (form_tbl (st_conn st2))
           = length (form_tbl (st_conn st1)) + stream_form_count example_lib {''noun''} example_lines"
    by blast
  have "row_counts (st_conn st2) = [1, 1, 1, 2, 4]"
    using c1 r by (simp add: row_counts_def example_stream_counts)
  with 1 2 c1 example_stream_counts show ?thesis by blast
qed

theorem reimport_without_senses_counterexample:
  "stream_sense_count example_lib {''adjective''} [''adjective-line''] = 0
   \<and> stream_form_count example_lib {''adjective''} [''adjective-line''] = 0
   \<and> map_sum id (\<lambda>st. row_counts (st_conn st))
     (import_jsonl example_lib empty_conn [''adjective-line''] {''adjective''} 1000)
     = Inr [1, 1, 0, 0, 0]
   \<and> map_sum id (\<lambda>st. row_counts (st_conn st))
       (bindE (import_jsonl example_lib empty_conn [''adjective-line''] {''adjective''} 1000)
          (\<lambda>st1. import_jsonl example_lib (st_conn st1) [''adjective-line''] {''adjective''} 1000))
     = Inr [1, 1, 0, 0, 0]"
  by (simp add: example_lib_def empty_conn_def row_counts_def model_defs
        stream_sense_count_def stream_form_count_def line_sense_count_def
        line_form_count_def accepted_entry_def entry_sense_count_def entry_form_count_def
        get_field_def elements_def)

end
